theory Spec2Isabelle
  imports Complex_Main "HOL-Library.Multiset" "HOL-Library.AList" "HOL-Library.Char_ord"
    "HOL-Library.List_Lexorder" "HOL-Library.Product_Lexorder"
begin

section \<open>Tables\<close>

text \<open>
  A cell of a pandas table as \<^verbatim>\<open>read_csv\<close> and the pages produce it: a missing value
  (\<^verbatim>\<open>NaN\<close>, \<^verbatim>\<open>NaT\<close>), a string, a number, a timestamp (after \<^verbatim>\<open>pd.to_datetime\<close>), and
  Python's \<^verbatim>\<open>None\<close>, which \<^verbatim>\<open>urgency_label\<close> accepts like any other value. Numbers are exact
  rationals: rounding of float64 is outside the model. Strings are byte lists (UTF-8), whose
  lexicographic order is Python's code point order.
\<close>

datatype cell = PyNone | NaN | Str string | Num rat | Timestamp int

datatype py_error = KeyError string | TypeError | ValueError | IndexError | ParserError

text \<open>
  A \<^verbatim>\<open>DataFrame\<close>: the column labels in order, and the rows in order, each row giving the
  cell under every label.
\<close>

type_synonym row = "(string \<times> cell) list"

record dataframe =
  columns :: "string list"
  rows :: "row list"

text \<open>\<^verbatim>\<open>pd.DataFrame()\<close>\<close>

definition empty_df :: dataframe where
  "empty_df = \<lparr>columns = [], rows = []\<rparr>"

text \<open>\<^verbatim>\<open>df.empty\<close>: some axis has length 0.\<close>

definition df_empty :: "dataframe \<Rightarrow> bool" where
  "df_empty df = (columns df = [] \<or> rows df = [])"

definition cell_of :: "row \<Rightarrow> string \<Rightarrow> cell" where
  "cell_of r c = (case map_of r c of None \<Rightarrow> NaN | Some v \<Rightarrow> v)"

definition series :: "dataframe \<Rightarrow> string \<Rightarrow> cell list" where
  "series df c = map (\<lambda>r. cell_of r c) (rows df)"

text \<open>\<^verbatim>\<open>df[c]\<close> raises \<^verbatim>\<open>KeyError\<close> when the label is absent.\<close>

definition df_getitem :: "dataframe \<Rightarrow> string \<Rightarrow> py_error + cell list" where
  "df_getitem df c = (if c \<in> set (columns df) then Inr (series df c) else Inl (KeyError c))"

text \<open>\<^verbatim>\<open>df.get(c, default)\<close> returns the default when the label is absent.\<close>

definition df_get :: "dataframe \<Rightarrow> string \<Rightarrow> cell list \<Rightarrow> cell list" where
  "df_get df c dflt = (if c \<in> set (columns df) then series df c else dflt)"

text \<open>\<^verbatim>\<open>df[mask]\<close> keeps the rows whose mask entry is true, in order.\<close>

definition df_mask :: "dataframe \<Rightarrow> bool list \<Rightarrow> dataframe" where
  "df_mask df m = df\<lparr>rows := map fst (filter snd (zip (rows df) m))\<rparr>"

text \<open>
  \<^verbatim>\<open>df[c] = values\<close>: an existing column is replaced in place, a new one is appended.
\<close>

definition df_assign :: "dataframe \<Rightarrow> string \<Rightarrow> cell list \<Rightarrow> dataframe" where
  "df_assign df c vs =
     \<lparr>columns = (if c \<in> set (columns df) then columns df else columns df @ [c]),
      rows = map (\<lambda>(r, v). AList.update c v r) (zip (rows df) vs)\<rparr>"

text \<open>\<^verbatim>\<open>df[cs]\<close> for labels that are all present.\<close>

definition df_select :: "dataframe \<Rightarrow> string list \<Rightarrow> dataframe" where
  "df_select df cs = \<lparr>columns = cs, rows = map (\<lambda>r. map (\<lambda>c. (c, cell_of r c)) cs) (rows df)\<rparr>"

definition is_null :: "cell \<Rightarrow> bool" where
  "is_null c = (case c of NaN \<Rightarrow> True | PyNone \<Rightarrow> True | _ \<Rightarrow> False)"

definition is_str :: "cell \<Rightarrow> bool" where
  "is_str c = (case c of Str s \<Rightarrow> True | _ \<Rightarrow> False)"

definition is_num :: "cell \<Rightarrow> bool" where
  "is_num c = (case c of Num r \<Rightarrow> True | _ \<Rightarrow> False)"

definition is_ts :: "cell \<Rightarrow> bool" where
  "is_ts c = (case c of Timestamp t \<Rightarrow> True | _ \<Rightarrow> False)"

definition str_of :: "cell \<Rightarrow> string" where
  "str_of c = (case c of Str s \<Rightarrow> s | _ \<Rightarrow> [])"

definition num_of :: "cell \<Rightarrow> rat" where
  "num_of c = (case c of Num r \<Rightarrow> r | _ \<Rightarrow> 0)"

definition ts_of :: "cell \<Rightarrow> int" where
  "ts_of c = (case c of Timestamp t \<Rightarrow> t | _ \<Rightarrow> 0)"

text \<open>\<^verbatim>\<open>Series.dropna()\<close>, \<^verbatim>\<open>Series.unique()\<close> (first occurrences, in order), \<^verbatim>\<open>Series.isin\<close>.\<close>

definition dropna :: "cell list \<Rightarrow> cell list" where
  "dropna cs = filter (\<lambda>c. \<not> is_null c) cs"

definition unique :: "cell list \<Rightarrow> cell list" where
  "unique cs = rev (remdups (rev cs))"

definition isin :: "cell list \<Rightarrow> cell list \<Rightarrow> bool list" where
  "isin cs vals = map (\<lambda>c. c \<in> set vals) cs"

text \<open>
  \<^verbatim>\<open>sorted(xs)\<close> on a list without missing values: strings in code point order, numbers and
  timestamps by value, and \<^verbatim>\<open>TypeError\<close> when two elements of different kinds meet.
\<close>

definition py_sorted :: "cell list \<Rightarrow> py_error + cell list" where
  "py_sorted cs =
     (if length cs \<le> 1 then Inr cs
      else if list_all is_str cs then Inr (sort_key str_of cs)
      else if list_all is_num cs then Inr (sort_key num_of cs)
      else if list_all is_ts cs then Inr (sort_key ts_of cs)
      else Inl TypeError)"

section \<open>Sidebar filters\<close>

text \<open>
  \<^verbatim>\<open>all_skus\<close> of \<^verbatim>\<open>sidebar_filters\<close>, lines 110 to 113. \<^verbatim>\<open>list(set(xs))\<close> holds each
  element of \<open>xs\<close> once, in an order Python does not fix; \<^verbatim>\<open>sorted\<close> then orders them.
\<close>

definition all_skus :: "dataframe \<Rightarrow> dataframe \<Rightarrow> py_error + cell list" where
  "all_skus df_forecast df_reco =
     py_sorted (remdups (unique (dropna (df_get df_forecast ''sku'' []))
                         @ unique (dropna (df_get df_reco ''sku'' []))))"

definition all_suppliers :: "dataframe \<Rightarrow> py_error + cell list" where
  "all_suppliers df_reco = py_sorted (unique (dropna (df_get df_reco ''supplier'' [])))"

section \<open>KPI cards\<close>

definition iloc0 :: "cell list \<Rightarrow> py_error + cell" where
  "iloc0 cs = (case cs of [] \<Rightarrow> Inl IndexError | c # _ \<Rightarrow> Inr c)"

text \<open>
  \<^verbatim>\<open>float(x)\<close>: a number stays as it is, a missing value is \<^verbatim>\<open>nan\<close>, a string is parsed
  (the parser \<open>parse\<close> is a parameter; \<open>None\<close> is \<^verbatim>\<open>ValueError\<close>).
\<close>

definition py_float :: "(string \<Rightarrow> cell option) \<Rightarrow> cell \<Rightarrow> py_error + cell" where
  "py_float parse c =
     (case c of
        Num r \<Rightarrow> Inr (Num r)
      | NaN \<Rightarrow> Inr NaN
      | Str s \<Rightarrow> (case parse s of None \<Rightarrow> Inl ValueError | Some v \<Rightarrow> Inr v)
      | PyNone \<Rightarrow> Inl TypeError
      | Timestamp t \<Rightarrow> Inl TypeError)"

text \<open>
  One line of lines 161 to 165:
  \<^verbatim>\<open>float(df_kpis.get(col, pd.Series([0])).iloc[0]) if not df_kpis.empty else 0.0\<close>
\<close>

definition kpi_value :: "(string \<Rightarrow> cell option) \<Rightarrow> dataframe \<Rightarrow> string \<Rightarrow> py_error + cell" where
  "kpi_value parse df_kpis col =
     (if df_empty df_kpis then Inr (Num 0)
      else (case iloc0 (df_get df_kpis col [Num 0]) of
              Inl e \<Rightarrow> Inl e
            | Inr c \<Rightarrow> py_float parse c))"

definition kpi_columns :: "string list" where
  "kpi_columns =
     [''total_sales'', ''avg_inventory_per_sku'', ''stockout_risk_pct'',
      ''avg_lead_time_days'', ''avg_delivery_time_days'']"

text \<open>The five values in the order of the source; the first exception ends the page.\<close>

fun collect :: "(py_error + 'a) list \<Rightarrow> py_error + 'a list" where
  "collect [] = Inr []"
| "collect (x # xs) =
     (case x of
        Inl e \<Rightarrow> Inl e
      | Inr v \<Rightarrow> (case collect xs of Inl e \<Rightarrow> Inl e | Inr vs \<Rightarrow> Inr (v # vs)))"

definition kpi_cards :: "(string \<Rightarrow> cell option) \<Rightarrow> dataframe \<Rightarrow> py_error + cell list" where
  "kpi_cards parse df_kpis = collect (map (kpi_value parse df_kpis) kpi_columns)"

section \<open>Storage, memoized loading and uploads\<close>

text \<open>
  The files of \<^verbatim>\<open>DATA_DIR\<close> by name, whether the directory exists, and the two memo tables of
  \<^verbatim>\<open>st.cache_data\<close>: one for \<^verbatim>\<open>load_csv\<close>, keyed by the path, one for \<^verbatim>\<open>get_all_data\<close>, which
  has no argument. \<^verbatim>\<open>pd.read_csv\<close> and \<^verbatim>\<open>DataFrame.to_csv\<close> are parameters of the model:
  \<open>read_csv\<close> maps the bytes of a file to a table or to the error it raises, \<open>to_csv\<close> maps a
  table to bytes.
\<close>

record app_state =
  files :: "string \<rightharpoonup> string"
  data_dir :: bool
  csv_cache :: "string \<rightharpoonup> dataframe"
  all_cache :: "(string \<times> dataframe) list option"

definition ensure_data_dir :: "app_state \<Rightarrow> app_state" where
  "ensure_data_dir st = st\<lparr>data_dir := True\<rparr>"

text \<open>The body of \<^verbatim>\<open>load_csv\<close>, lines 76 to 78.\<close>

definition load_csv_body ::
  "(string \<Rightarrow> py_error + dataframe) \<Rightarrow> (string \<rightharpoonup> string) \<Rightarrow> string \<Rightarrow> py_error + dataframe" where
  "load_csv_body read_csv fs path =
     (case fs path of None \<Rightarrow> Inr empty_df | Some bytes \<Rightarrow> read_csv bytes)"

text \<open>
  \<^verbatim>\<open>load_csv\<close> under \<^verbatim>\<open>@st.cache_data\<close>: a hit returns the stored table, a miss runs the body
  and stores its result; an exception stores nothing.
\<close>

definition load_csv ::
  "(string \<Rightarrow> py_error + dataframe) \<Rightarrow> app_state \<Rightarrow> string \<Rightarrow> (py_error + dataframe) \<times> app_state" where
  "load_csv read_csv st path =
     (case csv_cache st path of
        Some df \<Rightarrow> (Inr df, st)
      | None \<Rightarrow>
          (case load_csv_body read_csv (files st) path of
             Inl e \<Rightarrow> (Inl e, st)
           | Inr df \<Rightarrow> (Inr df, st\<lparr>csv_cache := (csv_cache st)(path \<mapsto> df)\<rparr>)))"

definition dataset_files :: "(string \<times> string) list" where
  "dataset_files =
     [(''kpis'', ''kpis.csv''), (''forecast'', ''forecast.csv''),
      (''recommendations'', ''recommendations.csv''), (''sales'', ''sales.csv''),
      (''inventory'', ''inventory.csv''), (''procurement'', ''procurement.csv''),
      (''logistics'', ''logistics.csv'')]"

text \<open>The dict display of \<^verbatim>\<open>get_all_data\<close> evaluates its entries in order.\<close>

fun load_each ::
  "(string \<Rightarrow> py_error + dataframe) \<Rightarrow> (string \<times> string) list \<Rightarrow> app_state
     \<Rightarrow> (py_error + (string \<times> dataframe) list) \<times> app_state" where
  "load_each read_csv [] st = (Inr [], st)"
| "load_each read_csv ((name, fname) # rest) st =
     (case load_csv read_csv st fname of
        (Inl e, st1) \<Rightarrow> (Inl e, st1)
      | (Inr df, st1) \<Rightarrow>
          (case load_each read_csv rest st1 of
             (Inl e, st2) \<Rightarrow> (Inl e, st2)
           | (Inr ds, st2) \<Rightarrow> (Inr ((name, df) # ds), st2)))"

definition get_all_data ::
  "(string \<Rightarrow> py_error + dataframe) \<Rightarrow> app_state
     \<Rightarrow> (py_error + (string \<times> dataframe) list) \<times> app_state" where
  "get_all_data read_csv st =
     (case all_cache st of
        Some d \<Rightarrow> (Inr d, st)
      | None \<Rightarrow>
          (case load_each read_csv dataset_files st of
             (Inl e, st1) \<Rightarrow> (Inl e, st1)
           | (Inr d, st1) \<Rightarrow> (Inr d, st1\<lparr>all_cache := Some d\<rparr>)))"

text \<open>\<^verbatim>\<open>st.cache_data.clear()\<close> empties the memo table of every cached function.\<close>

definition cache_clear :: "app_state \<Rightarrow> app_state" where
  "cache_clear st = st\<lparr>csv_cache := Map.empty, all_cache := None\<rparr>"

definition upload_mapping :: "(string \<times> string) list" where
  "upload_mapping =
     [(''Sales'', ''sales.csv''), (''Inventory'', ''inventory.csv''),
      (''Procurement'', ''procurement.csv''), (''Logistics'', ''logistics.csv''),
      (''KPIs'', ''kpis.csv''), (''Forecast'', ''forecast.csv''),
      (''Recommendations'', ''recommendations.csv'')]"

text \<open>
  Lines 304 to 309, the body of the loop of \<^verbatim>\<open>sidebar_uploaders\<close> for a slot that holds a
  file: \<^verbatim>\<open>pd.read_csv\<close> comes first, and its exception leaves the function before the file
  is written and before the memo tables are cleared.
\<close>

definition upload_slot ::
  "(string \<Rightarrow> py_error + dataframe) \<Rightarrow> (dataframe \<Rightarrow> string) \<Rightarrow> string \<Rightarrow> string
     \<Rightarrow> app_state \<Rightarrow> py_error option \<times> app_state" where
  "upload_slot read_csv to_csv fname upl st =
     (let st1 = ensure_data_dir st in
      case read_csv upl of
        Inl e \<Rightarrow> (Some e, st1)
      | Inr df \<Rightarrow> (None, cache_clear (st1\<lparr>files := (files st1)(fname \<mapsto> to_csv df)\<rparr>)))"

text \<open>
  The loop of \<^verbatim>\<open>sidebar_uploaders\<close>. \<open>uploaded label\<close> is what the uploader of the slot holds
  (\<open>None\<close> when no file is there). An exception leaves the loop, with the state as it is at
  that moment; the result then carries the exception.
\<close>

fun uploaders_loop ::
  "(string \<Rightarrow> py_error + dataframe) \<Rightarrow> (dataframe \<Rightarrow> string) \<Rightarrow> (string \<rightharpoonup> string)
     \<Rightarrow> (string \<times> string) list \<Rightarrow> app_state \<Rightarrow> py_error option \<times> app_state" where
  "uploaders_loop read_csv to_csv uploaded [] st = (None, st)"
| "uploaders_loop read_csv to_csv uploaded ((label, fname) # rest) st =
     (case uploaded label of
        None \<Rightarrow> uploaders_loop read_csv to_csv uploaded rest st
      | Some upl \<Rightarrow>
          (case upload_slot read_csv to_csv fname upl st of
             (Some e, st1) \<Rightarrow> (Some e, st1)
           | (None, st1) \<Rightarrow> uploaders_loop read_csv to_csv uploaded rest st1))"

definition sidebar_uploaders ::
  "(string \<Rightarrow> py_error + dataframe) \<Rightarrow> (dataframe \<Rightarrow> string) \<Rightarrow> (string \<rightharpoonup> string)
     \<Rightarrow> app_state \<Rightarrow> py_error option \<times> app_state" where
  "sidebar_uploaders read_csv to_csv uploaded st =
     uploaders_loop read_csv to_csv uploaded upload_mapping st"

text \<open>
  What loading the given files from storage returns when nothing is memoized: the reference
  that the memoized loads are compared with.
\<close>

fun fresh_each ::
  "(string \<Rightarrow> py_error + dataframe) \<Rightarrow> (string \<rightharpoonup> string) \<Rightarrow> (string \<times> string) list
     \<Rightarrow> py_error + (string \<times> dataframe) list" where
  "fresh_each read_csv fs [] = Inr []"
| "fresh_each read_csv fs ((name, fname) # rest) =
     (case load_csv_body read_csv fs fname of
        Inl e \<Rightarrow> Inl e
      | Inr df \<Rightarrow>
          (case fresh_each read_csv fs rest of
             Inl e \<Rightarrow> Inl e
           | Inr ds \<Rightarrow> Inr ((name, df) # ds)))"

text \<open>
  The memo table of \<^verbatim>\<open>load_csv\<close> agrees with storage: every stored table is what the body
  returns on the files as they are now.
\<close>

definition cache_ok :: "(string \<Rightarrow> py_error + dataframe) \<Rightarrow> app_state \<Rightarrow> bool" where
  "cache_ok read_csv st =
     (\<forall>p df. csv_cache st p = Some df \<longrightarrow> load_csv_body read_csv (files st) p = Inr df)"

section \<open>Urgency labels\<close>

definition lower_char :: "char \<Rightarrow> char" where
  "lower_char c =
     (case map_of (zip ''ABCDEFGHIJKLMNOPQRSTUVWXYZ'' ''abcdefghijklmnopqrstuvwxyz'') c of
        None \<Rightarrow> c | Some d \<Rightarrow> d)"

text \<open>
  \<^verbatim>\<open>str.lower\<close> on the ASCII letters. Python also lowers letters beyond ASCII; none of them
  lowers to a letter of \<^verbatim>\<open>high\<close> or \<^verbatim>\<open>medium\<close>, so the two comparisons of
  \<^verbatim>\<open>urgency_label\<close> come out the same.
\<close>

definition py_lower :: "string \<Rightarrow> string" where
  "py_lower s = map lower_char s"

text \<open>
  \<^verbatim>\<open>str(val)\<close>. The text of a number or a timestamp is a parameter \<open>repr\<close>: the theorems
  hold for every such rendering.
\<close>

definition py_str :: "(cell \<Rightarrow> string) \<Rightarrow> cell \<Rightarrow> string" where
  "py_str repr v =
     (case v of Str s \<Rightarrow> s | PyNone \<Rightarrow> ''None'' | NaN \<Rightarrow> ''nan'' | _ \<Rightarrow> repr v)"

text \<open>The three labels; the first four bytes are the UTF-8 of U+1F534, U+1F7E0, U+1F7E2.\<close>

definition label_high :: string where
  "label_high = [CHR 0xF0, CHR 0x9F, CHR 0x94, CHR 0xB4] @ '' High''"

definition label_medium :: string where
  "label_medium = [CHR 0xF0, CHR 0x9F, CHR 0x9F, CHR 0xA0] @ '' Medium''"

definition label_low :: string where
  "label_low = [CHR 0xF0, CHR 0x9F, CHR 0x9F, CHR 0xA2] @ '' Low''"

definition urgency_label :: "(cell \<Rightarrow> string) \<Rightarrow> cell \<Rightarrow> string" where
  "urgency_label repr val =
     (let v = py_lower (py_str repr val) in
      if v = ''high'' then label_high
      else if v = ''medium'' then label_medium
      else label_low)"

section \<open>Page filters\<close>

text \<open>
  \<^verbatim>\<open>pd.to_datetime\<close> on a column: a missing value becomes \<^verbatim>\<open>NaT\<close>, a timestamp stays, and
  any other cell goes through the parser \<open>conv\<close>, a parameter (\<open>None\<close> is the
  \<^verbatim>\<open>ValueError\<close> of a text that is no date). Timestamps and the dates of the date range are
  integers on one time axis.
\<close>

definition to_datetime_cell :: "(cell \<Rightarrow> int option) \<Rightarrow> cell \<Rightarrow> py_error + cell" where
  "to_datetime_cell conv c =
     (case c of
        NaN \<Rightarrow> Inr NaN
      | PyNone \<Rightarrow> Inr NaN
      | Timestamp t \<Rightarrow> Inr (Timestamp t)
      | _ \<Rightarrow> (case conv c of None \<Rightarrow> Inl ValueError | Some t \<Rightarrow> Inr (Timestamp t)))"

definition to_datetime :: "(cell \<Rightarrow> int option) \<Rightarrow> cell list \<Rightarrow> py_error + cell list" where
  "to_datetime conv cs = collect (map (to_datetime_cell conv) cs)"

text \<open>Comparisons with \<^verbatim>\<open>NaT\<close> are false.\<close>

definition ts_ge :: "cell \<Rightarrow> int \<Rightarrow> bool" where
  "ts_ge c t = (case c of Timestamp u \<Rightarrow> t \<le> u | _ \<Rightarrow> False)"

definition ts_le :: "cell \<Rightarrow> int \<Rightarrow> bool" where
  "ts_le c t = (case c of Timestamp u \<Rightarrow> u \<le> t | _ \<Rightarrow> False)"

definition mask_and :: "bool list \<Rightarrow> bool list \<Rightarrow> bool list" where
  "mask_and a b = map (\<lambda>(x, y). x \<and> y) (zip a b)"

text \<open>\<^verbatim>\<open>df[df[c].isin(vals)]\<close>\<close>

definition filter_isin :: "dataframe \<Rightarrow> string \<Rightarrow> cell list \<Rightarrow> py_error + dataframe" where
  "filter_isin df c vals =
     (case df_getitem df c of Inl e \<Rightarrow> Inl e | Inr s \<Rightarrow> Inr (df_mask df (isin s vals)))"

text \<open>\<^verbatim>\<open>df[(df[c] >= start) & (df[c] <= end)]\<close>\<close>

definition filter_between :: "dataframe \<Rightarrow> string \<Rightarrow> int \<Rightarrow> int \<Rightarrow> py_error + dataframe" where
  "filter_between df c start end =
     (case df_getitem df c of
        Inl e \<Rightarrow> Inl e
      | Inr lo \<Rightarrow>
          (case df_getitem df c of
             Inl e \<Rightarrow> Inl e
           | Inr hi \<Rightarrow>
               Inr (df_mask df (mask_and (map (\<lambda>v. ts_ge v start) lo) (map (\<lambda>v. ts_le v end) hi)))))"

text \<open>
  \<^verbatim>\<open>page_forecasting\<close>, lines 190 to 200: the table that the chart and the forecast table
  are drawn from, \<open>None\<close> when the page returns at the empty table. The date range is what
  \<^verbatim>\<open>st.date_input\<close> gave: nothing, or a tuple of up to two dates.
\<close>

definition page_forecasting_filter ::
  "(cell \<Rightarrow> int option) \<Rightarrow> dataframe \<Rightarrow> cell list \<Rightarrow> int list option \<Rightarrow> py_error + dataframe option" where
  "page_forecasting_filter conv df_fc selected_skus date_range =
     (if df_empty df_fc then Inr None
      else
        (case df_getitem df_fc ''date'' of
           Inl e \<Rightarrow> Inl e
         | Inr ds \<Rightarrow>
             (case to_datetime conv ds of
                Inl e \<Rightarrow> Inl e
              | Inr ts \<Rightarrow>
                  (case (if selected_skus = [] then Inr (df_assign df_fc ''date'' ts)
                         else filter_isin (df_assign df_fc ''date'' ts) ''sku'' selected_skus) of
                     Inl e \<Rightarrow> Inl e
                   | Inr df1 \<Rightarrow>
                       (case date_range of
                          Some [d0, d1] \<Rightarrow>
                            (case filter_between df1 ''date'' d0 d1 of
                               Inl e \<Rightarrow> Inl e
                             | Inr df2 \<Rightarrow> Inr (Some df2))
                        | _ \<Rightarrow> Inr (Some df1))))))"

text \<open>\<^verbatim>\<open>page_recommendations\<close>, lines 225 to 233.\<close>

definition page_recommendations_filter ::
  "dataframe \<Rightarrow> cell list \<Rightarrow> cell list \<Rightarrow> py_error + dataframe option" where
  "page_recommendations_filter df_rec selected_skus selected_suppliers =
     (if df_empty df_rec then Inr None
      else
        (case (if selected_skus = [] then Inr df_rec
               else filter_isin df_rec ''sku'' selected_skus) of
           Inl e \<Rightarrow> Inl e
         | Inr df1 \<Rightarrow>
             (case (if selected_suppliers = [] then Inr df1
                    else filter_isin df1 ''supplier'' selected_suppliers) of
                Inl e \<Rightarrow> Inl e
              | Inr df2 \<Rightarrow> Inr (Some df2))))"

text \<open>
  The filter as the specification words it, to compare the pages with: a row is kept when
  the sku set is empty or holds its sku, the supplier set is empty or holds its supplier,
  and the date range is absent or holds its date, bounds included.
\<close>

definition range_of :: "int list option \<Rightarrow> (int \<times> int) option" where
  "range_of date_range = (case date_range of Some [d0, d1] \<Rightarrow> Some (d0, d1) | _ \<Rightarrow> None)"

definition keep_row_spec :: "cell list \<Rightarrow> cell list \<Rightarrow> (int \<times> int) option \<Rightarrow> row \<Rightarrow> bool" where
  "keep_row_spec skuSet supplierSet dateRange r =
     ((skuSet = [] \<or> cell_of r ''sku'' \<in> set skuSet)
      \<and> (supplierSet = [] \<or> cell_of r ''supplier'' \<in> set supplierSet)
      \<and> (case dateRange of
            None \<Rightarrow> True
          | Some (start, end) \<Rightarrow>
              (case cell_of r ''date'' of Timestamp t \<Rightarrow> start \<le> t \<and> t \<le> end | _ \<Rightarrow> False)))"

section \<open>Reorder suggestions\<close>

text \<open>
  The order that pandas sorts a column by: numbers and timestamps by value, strings in code
  point order, missing values last. Numbers come before strings, as in the sorted group keys
  of \<^verbatim>\<open>groupby\<close>.
\<close>

definition cell_key :: "cell \<Rightarrow> nat \<times> rat \<times> string" where
  "cell_key c =
     (case c of
        Num r \<Rightarrow> (0, r, [])
      | Timestamp t \<Rightarrow> (0, of_int t, [])
      | Str s \<Rightarrow> (1, 0, s)
      | NaN \<Rightarrow> (2, 0, [])
      | PyNone \<Rightarrow> (2, 0, []))"

text \<open>A column that mixes strings with numbers cannot be ordered by \<^verbatim>\<open>sort_values\<close>.\<close>

definition comparable :: "cell list \<Rightarrow> bool" where
  "comparable cs =
     (list_all is_str (dropna cs) \<or> list_all is_num (dropna cs) \<or> list_all is_ts (dropna cs))"

text \<open>
  \<^verbatim>\<open>df.sort_values([a, b])\<close>: ascending by \<open>a\<close>, then by \<open>b\<close>, missing values last, rows
  with equal keys in their order.
\<close>

definition sort_values2 :: "dataframe \<Rightarrow> string \<Rightarrow> string \<Rightarrow> py_error + dataframe" where
  "sort_values2 df a b =
     (if a \<in> set (columns df) then
        if b \<in> set (columns df) then
          if comparable (series df a) \<and> comparable (series df b) then
            Inr (df\<lparr>rows := sort_key (\<lambda>r. (cell_key (cell_of r a), cell_key (cell_of r b))) (rows df)\<rparr>)
          else Inl TypeError
        else Inl (KeyError b)
      else Inl (KeyError a))"

definition columns_to_show_all :: "string list" where
  "columns_to_show_all =
     [''sku'', ''current_stock'', ''reorder_point'', ''recommended_order_qty'', ''supplier'',
      ''transport_mode'', ''lead_time_days'', ''Urgency'']"

text \<open>Lines 244 to 246: the column \<^verbatim>\<open>Urgency\<close> of labels, when there is a column \<^verbatim>\<open>urgency\<close>.\<close>

definition with_urgency :: "(cell \<Rightarrow> string) \<Rightarrow> dataframe \<Rightarrow> dataframe" where
  "with_urgency repr df_rec =
     (if ''urgency'' \<in> set (columns df_rec) then
        df_assign df_rec ''Urgency'' (map (\<lambda>v. Str (urgency_label repr v)) (series df_rec ''urgency''))
      else df_rec)"

text \<open>Lines 248 to 256: the table under \<^verbatim>\<open>Reorder Suggestions\<close>.\<close>

definition reorder_suggestions :: "(cell \<Rightarrow> string) \<Rightarrow> dataframe \<Rightarrow> py_error + dataframe" where
  "reorder_suggestions repr df_rec =
     (let display = with_urgency repr df_rec;
          columns_to_show = filter (\<lambda>c. c \<in> set (columns display)) columns_to_show_all
      in sort_values2 (df_select display columns_to_show) ''Urgency'' ''sku'')"

section \<open>Top N by metric\<close>






















section \<open>Loading and uploading: lemmas\<close>

lemma load_csv_files [simp]: "files (snd (load_csv rd st p)) = files st"
  by (simp add: load_csv_def split: option.splits sum.splits)

lemma load_csv_miss:
  "csv_cache st p = None \<Longrightarrow> fst (load_csv rd st p) = load_csv_body rd (files st) p"
  by (simp add: load_csv_def split: option.splits sum.splits)

lemma load_csv_cache_other:
  "q \<noteq> p \<Longrightarrow> csv_cache (snd (load_csv rd st p)) q = csv_cache st q"
  by (simp add: load_csv_def split: option.splits sum.splits)

lemma load_csv_hit_ok:
  "cache_ok rd st \<Longrightarrow> fst (load_csv rd st p) = load_csv_body rd (files st) p"
  by (auto simp: load_csv_def cache_ok_def split: option.splits sum.splits)

lemma cache_ok_load_csv: "cache_ok rd st \<Longrightarrow> cache_ok rd (snd (load_csv rd st p))"
  by (auto simp: load_csv_def cache_ok_def split: option.splits sum.splits)

lemma cache_ok_empty: "csv_cache st = Map.empty \<Longrightarrow> cache_ok rd st"
  by (simp add: cache_ok_def)

lemma load_each_fresh:
  "distinct (map snd ms) \<Longrightarrow> (\<And>f. f \<in> snd ` set ms \<Longrightarrow> csv_cache st f = None)
     \<Longrightarrow> fst (load_each rd ms st) = fresh_each rd (files st) ms"
proof (induction ms arbitrary: st)
  case Nil
  then show ?case by simp
next
  case (Cons m ms)
  obtain name fname where m: "m = (name, fname)" by (cases m)
  obtain r st1 where l: "load_csv rd st fname = (r, st1)" by (cases "load_csv rd st fname")
  have miss: "csv_cache st fname = None" using Cons.prems(2) m by simp
  have r: "r = load_csv_body rd (files st) fname"
    using load_csv_miss [OF miss, of rd] l by simp
  have f1: "files st1 = files st" using load_csv_files [of rd st fname] l by simp
  have c1: "csv_cache st1 f = None" if "f \<in> snd ` set ms" for f
  proof -
    from that Cons.prems(1) m have "f \<noteq> fname" by auto
    then have "csv_cache st1 f = csv_cache st f"
      using load_csv_cache_other [of f fname rd st] l by simp
    with that Cons.prems(2) show ?thesis by simp
  qed
  have d: "distinct (map snd ms)" using Cons.prems(1) by simp
  have ih: "fst (load_each rd ms st1) = fresh_each rd (files st) ms"
    using Cons.IH [OF d c1] f1 by simp
  obtain r2 st2 where l2: "load_each rd ms st1 = (r2, st2)" by (cases "load_each rd ms st1")
  from ih l2 have r2: "r2 = fresh_each rd (files st) ms" by simp
  show ?case
    by (simp add: m l l2 r r2 split: sum.splits)
qed

lemma uploaders_loop_Cons:
  "uploaders_loop read_csv to_csv uploaded ((label, fname) # rest) st =
     (case uploaded label of
        None \<Rightarrow> uploaders_loop read_csv to_csv uploaded rest st
      | Some upl \<Rightarrow>
          (let st1 = ensure_data_dir st in
           case read_csv upl of
             Inl e \<Rightarrow> (Some e, st1)
           | Inr df \<Rightarrow>
               uploaders_loop read_csv to_csv uploaded rest
                 (cache_clear (st1\<lparr>files := (files st1)(fname \<mapsto> to_csv df)\<rparr>))))"
  by (simp add: upload_slot_def Let_def split: option.splits sum.splits)

declare uploaders_loop.simps(2) [simp del]

declare uploaders_loop_Cons [simp]

lemma upload_slot_fails:
  "read_csv upl = Inl e \<Longrightarrow> upload_slot read_csv to_csv fname upl st = (Some e, ensure_data_dir st)"
  by (simp add: upload_slot_def)

lemma upload_slot_saves:
  "read_csv upl = Inr df \<Longrightarrow>
     upload_slot read_csv to_csv fname upl st
       = (None, \<lparr>files = (files st)(fname \<mapsto> to_csv df), data_dir = True,
                 csv_cache = Map.empty, all_cache = None\<rparr>)"
  by (simp add: upload_slot_def ensure_data_dir_def cache_clear_def)

lemma uploaders_loop_keeps_file:
  "(label, fname) \<in> set ms \<Longrightarrow> distinct (map snd ms) \<Longrightarrow> uploaded label = Some upl
     \<Longrightarrow> rd upl = Inl e
     \<Longrightarrow> fst (uploaders_loop rd wr uploaded ms st) \<noteq> None
         \<and> files (snd (uploaders_loop rd wr uploaded ms st)) fname = files st fname"
proof (induction ms arbitrary: st)
  case Nil
  then show ?case by simp
next
  case (Cons m ms)
  obtain l f where m: "m = (l, f)" by (cases m)
  show ?case
  proof (cases "m = (label, fname)")
    case True
    with Cons.prems m show ?thesis by (simp add: ensure_data_dir_def)
  next
    case False
    with Cons.prems(1) have mem: "(label, fname) \<in> set ms" by simp
    from mem Cons.prems(2) m have ne: "fname \<noteq> f" by force
    from Cons.prems(2) have d: "distinct (map snd ms)" by simp
    note ih = Cons.IH [OF mem d Cons.prems(3) Cons.prems(4)]
    show ?thesis
    proof (cases "uploaded l")
      case None
      with ih m show ?thesis by simp
    next
      case (Some upl')
      show ?thesis
      proof (cases "rd upl'")
        case (Inl e')
        with Some m show ?thesis by (simp add: ensure_data_dir_def)
      next
        case (Inr df)
        with Some m ne ih [of "cache_clear ((ensure_data_dir st)\<lparr>files := (files (ensure_data_dir st))(f \<mapsto> wr df)\<rparr>)"]
        show ?thesis by (simp add: ensure_data_dir_def cache_clear_def)
      qed
    qed
  qed
qed

lemma uploaders_loop_clears:
  "(label, fname) \<in> set ms \<Longrightarrow> uploaded label = Some upl
     \<Longrightarrow> fst (uploaders_loop rd wr uploaded ms st) = None
     \<Longrightarrow> csv_cache (snd (uploaders_loop rd wr uploaded ms st)) = Map.empty
         \<and> all_cache (snd (uploaders_loop rd wr uploaded ms st)) = None"
proof (induction ms arbitrary: st)
  case Nil
  then show ?case by simp
next
  case (Cons m ms)
  obtain l f where m: "m = (l, f)" by (cases m)
  have keep: "csv_cache (snd (uploaders_loop rd wr uploaded ms st')) = Map.empty
         \<and> all_cache (snd (uploaders_loop rd wr uploaded ms st')) = None"
    if "csv_cache st' = Map.empty" "all_cache st' = None" for st'
    using that
  proof (induction ms arbitrary: st')
    case Nil
    then show ?case by simp
  next
    case (Cons a as)
    obtain l' f' where a: "a = (l', f')" by (cases a)
    show ?case
      using Cons.prems Cons.IH
      by (auto simp: a ensure_data_dir_def cache_clear_def Let_def split: option.splits sum.splits)
  qed
  show ?case
  proof (cases "uploaded l")
    case None
    with Cons.prems m have mem: "(label, fname) \<in> set ms" by auto
    from Cons.prems(3) None m have "fst (uploaders_loop rd wr uploaded ms st) = None" by simp
    from Cons.IH [OF mem Cons.prems(2) this] None m show ?thesis by simp
  next
    case (Some upl')
    show ?thesis
    proof (cases "rd upl'")
      case (Inl e')
      with Some m Cons.prems(3) show ?thesis by simp
    next
      case (Inr df)
      with Some m show ?thesis
        using keep [of "cache_clear ((ensure_data_dir st)\<lparr>files := (files (ensure_data_dir st))(f \<mapsto> wr df)\<rparr>)"]
        by (simp add: cache_clear_def Let_def)
    qed
  qed
qed

lemma cache_ok_uploaders_loop:
  "cache_ok rd st \<Longrightarrow> cache_ok rd (snd (uploaders_loop rd wr uploaded ms st))"
proof (induction ms arbitrary: st)
  case Nil
  then show ?case by simp
next
  case (Cons m ms)
  obtain l f where m: "m = (l, f)" by (cases m)
  have e: "cache_ok rd (ensure_data_dir st)"
    using Cons.prems by (simp add: cache_ok_def ensure_data_dir_def)
  have c: "cache_ok rd (cache_clear (st'\<lparr>files := fs\<rparr>))" for st' fs
    by (simp add: cache_ok_def cache_clear_def)
  show ?case
    using Cons.prems Cons.IH e c
    by (auto simp: m Let_def split: option.splits sum.splits)
qed

lemma upload_mapping_distinct: "distinct (map snd upload_mapping)"
  by (simp add: upload_mapping_def)

lemma dataset_files_distinct: "distinct (map snd dataset_files)"
  by (simp add: dataset_files_def)

lemma uploaders_loop_files_other:
  "fname \<notin> snd ` set ms
     \<Longrightarrow> files (snd (uploaders_loop rd wr uploaded ms st)) fname = files st fname"
proof (induction ms arbitrary: st)
  case Nil
  then show ?case by simp
next
  case (Cons m ms)
  obtain l f where m: "m = (l, f)" by (cases m)
  from Cons.prems m have ne: "fname \<noteq> f" and nin: "fname \<notin> snd ` set ms" by auto
  show ?case
    using Cons.IH [OF nin] ne
    by (simp add: m Let_def ensure_data_dir_def cache_clear_def split: option.splits sum.splits)
qed

lemma uploaders_loop_saved:
  "(label, fname) \<in> set ms \<Longrightarrow> distinct (map snd ms) \<Longrightarrow> uploaded label = Some upl
     \<Longrightarrow> fst (uploaders_loop rd wr uploaded ms st) = None
     \<Longrightarrow> \<exists>df. rd upl = Inr df
           \<and> files (snd (uploaders_loop rd wr uploaded ms st)) fname = Some (wr df)"
proof (induction ms arbitrary: st)
  case Nil
  then show ?case by simp
next
  case (Cons m ms)
  obtain l f where m: "m = (l, f)" by (cases m)
  from Cons.prems(2) have d: "distinct (map snd ms)" by simp
  show ?case
  proof (cases "m = (label, fname)")
    case True
    with m have lf: "l = label" "f = fname" by simp_all
    from Cons.prems(2) m lf have nin: "fname \<notin> snd ` set ms" by simp
    show ?thesis
    proof (cases "rd upl")
      case (Inl e)
      with Cons.prems(3,4) m lf show ?thesis by simp
    next
      case (Inr df)
      with Cons.prems(3) m lf uploaders_loop_files_other [OF nin, of rd wr uploaded]
      show ?thesis by (simp add: Let_def ensure_data_dir_def cache_clear_def)
    qed
  next
    case False
    with Cons.prems(1) have mem: "(label, fname) \<in> set ms" by simp
    show ?thesis
    proof (cases "uploaded l")
      case None
      with Cons.prems(4) m have "fst (uploaders_loop rd wr uploaded ms st) = None" by simp
      from Cons.IH [OF mem d Cons.prems(3) this] None m show ?thesis by simp
    next
      case (Some upl')
      show ?thesis
      proof (cases "rd upl'")
        case (Inl e')
        with Some m Cons.prems(4) show ?thesis by simp
      next
        case (Inr df')
        let ?st = "cache_clear ((ensure_data_dir st)\<lparr>files := (files (ensure_data_dir st))(f \<mapsto> wr df')\<rparr>)"
        from Cons.prems(4) Some Inr m
        have "fst (uploaders_loop rd wr uploaded ms ?st) = None" by (simp add: Let_def)
        from Cons.IH [OF mem d Cons.prems(3) this] Some Inr m
        show ?thesis by (simp add: Let_def)
      qed
    qed
  qed
qed

lemma uploaders_loop_single:
  "label \<in> fst ` set ms \<Longrightarrow> (\<And>l. l \<noteq> label \<Longrightarrow> uploaded l = None)
     \<Longrightarrow> uploaded label = Some upl \<Longrightarrow> rd upl = Inl e
     \<Longrightarrow> uploaders_loop rd wr uploaded ms st = (Some e, ensure_data_dir st)"
proof (induction ms)
  case Nil
  then show ?case by simp
next
  case (Cons m ms)
  obtain l f where m: "m = (l, f)" by (cases m)
  show ?case
  proof (cases "l = label")
    case True
    with Cons.prems m show ?thesis by simp
  next
    case False
    with Cons.prems m have "label \<in> fst ` set ms" by auto
    from Cons.IH [OF this Cons.prems(2) Cons.prems(3) Cons.prems(4)] False Cons.prems(2) [of l] m
    show ?thesis by simp
  qed
qed

lemma get_all_data_fresh:
  "csv_cache st = Map.empty \<Longrightarrow> all_cache st = None
     \<Longrightarrow> fst (get_all_data rd st) = fresh_each rd (files st) dataset_files"
proof -
  assume c: "csv_cache st = Map.empty" and a: "all_cache st = None"
  have "fst (load_each rd dataset_files st) = fresh_each rd (files st) dataset_files"
    by (rule load_each_fresh [OF dataset_files_distinct]) (simp add: c)
  then show ?thesis
    by (cases "load_each rd dataset_files st") (simp add: get_all_data_def a split: sum.splits)
qed

section \<open>Urgency labels: lemmas\<close>

lemma labels_distinct:
  "label_high \<noteq> label_medium" "label_high \<noteq> label_low" "label_medium \<noteq> label_low"
  by (simp_all add: label_high_def label_medium_def label_low_def)

section \<open>Filters and KPI cards: lemmas\<close>

lemma set_unique [simp]: "set (unique cs) = set cs"
  by (simp add: unique_def)

lemma distinct_unique [simp]: "distinct (unique cs)"
  by (simp add: unique_def)

lemma set_dropna: "set (dropna cs) = {c \<in> set cs. \<not> is_null c}"
  by (auto simp: dropna_def)

lemma str_of_inj: "is_str a \<Longrightarrow> is_str b \<Longrightarrow> str_of a = str_of b \<Longrightarrow> a = b"
  by (cases a; cases b) (simp_all add: is_str_def str_of_def)

lemma py_sorted_strings:
  assumes "list_all is_str cs" and "distinct cs"
  shows "\<exists>ys. py_sorted cs = Inr ys \<and> set ys = set cs \<and> distinct ys
            \<and> sorted_wrt (<) (map str_of ys)"
proof (cases "length cs \<le> 1")
  case True
  then have "cs = [] \<or> (\<exists>c. cs = [c])" by (cases cs) auto
  with True assms show ?thesis by (auto simp: py_sorted_def)
next
  case False
  let ?ys = "sort_key str_of cs"
  have r: "py_sorted cs = Inr ?ys" using False assms(1) by (simp add: py_sorted_def)
  have s: "set ?ys = set cs" and d: "distinct ?ys" using assms(2) by simp_all
  have "inj_on str_of (set ?ys)"
    using assms(1) by (auto simp: inj_on_def list_all_iff intro: str_of_inj)
  with d have "distinct (map str_of ?ys)" by (simp add: distinct_map)
  moreover have "sorted (map str_of ?ys)" by simp
  ultimately have "sorted_wrt (<) (map str_of ?ys)" by (simp add: strict_sorted_iff)
  with r s d show ?thesis by blast
qed

lemma is_null_iff: "is_null c \<longleftrightarrow> c = NaN \<or> c = PyNone"
  by (cases c) (simp_all add: is_null_def)

lemma py_sorted_any_order:
  assumes "list_all is_str xs" and "distinct xs" and "distinct zs" and "set zs = set xs"
  shows "py_sorted zs = py_sorted xs"
proof -
  from assms(1,4) have z: "list_all is_str zs" by (simp add: list_all_iff)
  from py_sorted_strings [OF assms(1,2)]
  obtain ys where ys: "py_sorted xs = Inr ys" "set ys = set xs" "distinct ys"
    "sorted_wrt (<) (map str_of ys)" by blast
  from py_sorted_strings [OF z assms(3)]
  obtain ys' where ys': "py_sorted zs = Inr ys'" "set ys' = set zs" "distinct ys'"
    "sorted_wrt (<) (map str_of ys')" by blast
  have "set (map str_of ys) = set (map str_of ys')"
    using ys(2) ys'(2) assms(4) by simp
  with ys(4) ys'(4) have m: "map str_of ys = map str_of ys'"
    by (intro sorted_distinct_set_unique) (simp_all add: strict_sorted_iff)
  have "inj_on str_of (set ys \<union> set ys')"
    using assms(1,4) ys(2) ys'(2) by (auto simp: inj_on_def list_all_iff intro: str_of_inj)
  with m have "ys = ys'" by (simp add: inj_on_map_eq_map)
  with ys(1) ys'(1) show ?thesis by simp
qed

lemma df_get_absent: "c \<notin> set (columns df) \<Longrightarrow> df_get df c d = d"
  by (simp add: df_get_def)

lemma kpi_value_empty: "df_empty df \<Longrightarrow> kpi_value parse df col = Inr (Num 0)"
  by (simp add: kpi_value_def)

lemma kpi_cards_empty:
  "df_empty df \<Longrightarrow> kpi_cards parse df = Inr [Num 0, Num 0, Num 0, Num 0, Num 0]"
  by (simp add: kpi_cards_def kpi_columns_def kpi_value_empty)

lemma kpi_value_absent:
  "\<not> df_empty df \<Longrightarrow> col \<notin> set (columns df) \<Longrightarrow> kpi_value parse df col = Inr (Num 0)"
  by (simp add: kpi_value_def df_get_def iloc0_def py_float_def)

lemma kpi_value_row0:
  "\<not> df_empty df \<Longrightarrow> col \<in> set (columns df)
     \<Longrightarrow> kpi_value parse df col = py_float parse (cell_of (hd (rows df)) col)"
  by (cases "rows df") (simp_all add: kpi_value_def df_get_def iloc0_def df_empty_def series_def)

lemma kpi_value_rest:
  "kpi_value parse \<lparr>columns = cs, rows = r # rest\<rparr> = kpi_value parse \<lparr>columns = cs, rows = [r]\<rparr>"
  by (rule ext) (simp add: kpi_value_def df_get_def iloc0_def df_empty_def series_def)

section \<open>Page filters: lemmas\<close>

lemma mask_filter: "map fst (filter snd (zip xs (map P xs))) = filter P xs"
  by (induction xs) auto

lemma mask_and_map: "mask_and (map f xs) (map g xs) = map (\<lambda>x. f x \<and> g x) xs"
  by (induction xs) (auto simp: mask_and_def)

lemma filter_isin_present:
  "c \<in> set (columns df) \<Longrightarrow>
     filter_isin df c vals = Inr (df\<lparr>rows := filter (\<lambda>r. cell_of r c \<in> set vals) (rows df)\<rparr>)"
  by (simp add: filter_isin_def df_getitem_def df_mask_def isin_def series_def mask_filter
      comp_def)

lemma filter_isin_absent: "c \<notin> set (columns df) \<Longrightarrow> filter_isin df c vals = Inl (KeyError c)"
  by (simp add: filter_isin_def df_getitem_def)

lemma filter_between_present:
  "c \<in> set (columns df) \<Longrightarrow>
     filter_between df c s e
       = Inr (df\<lparr>rows := filter (\<lambda>r. ts_ge (cell_of r c) s \<and> ts_le (cell_of r c) e) (rows df)\<rparr>)"
  by (simp add: filter_between_def df_getitem_def df_mask_def series_def mask_and_map
      mask_filter comp_def)

lemma between_spec:
  "(ts_ge v s \<and> ts_le v e) = (case v of Timestamp t \<Rightarrow> s \<le> t \<and> t \<le> e | _ \<Rightarrow> False)"
  by (cases v) (simp_all add: ts_ge_def ts_le_def)

lemma collect_length: "collect xs = Inr ys \<Longrightarrow> length ys = length xs"
  by (induction xs arbitrary: ys) (auto split: sum.splits)

lemma collect_nth: "collect xs = Inr ys \<Longrightarrow> i < length xs \<Longrightarrow> xs ! i = Inr (ys ! i)"
proof (induction xs arbitrary: ys i)
  case Nil
  then show ?case by simp
next
  case (Cons x xs)
  then show ?case by (cases i) (auto split: sum.splits)
qed

lemma cell_of_update: "cell_of (AList.update c v r) d = (if d = c then v else cell_of r d)"
  by (simp add: cell_of_def update_conv')

lemma series_assign:
  "length vs = length (rows df) \<Longrightarrow>
     series (df_assign df c vs) d = (if d = c then vs else series df d)"
  by (auto simp: series_def df_assign_def cell_of_update list_eq_iff_nth_eq)

lemma columns_assign_present: "c \<in> set (columns df) \<Longrightarrow> columns (df_assign df c vs) = columns df"
  by (simp add: df_assign_def)

lemma keep_row_spec_fun:
  "keep_row_spec skuSet supplierSet dateRange =
     (\<lambda>r. (skuSet = [] \<or> cell_of r ''sku'' \<in> set skuSet)
      \<and> (supplierSet = [] \<or> cell_of r ''supplier'' \<in> set supplierSet)
      \<and> (case dateRange of
            None \<Rightarrow> True
          | Some (start, end) \<Rightarrow>
              (case cell_of r ''date'' of Timestamp t \<Rightarrow> start \<le> t \<and> t \<le> end | _ \<Rightarrow> False)))"
  by (rule ext) (simp add: keep_row_spec_def)

lemma page_forecasting_filter_spec:
  assumes "\<not> df_empty df_fc" and "''sku'' \<in> set (columns df_fc)"
    and "''date'' \<in> set (columns df_fc)"
    and "to_datetime conv (series df_fc ''date'') = Inr ts"
  shows "page_forecasting_filter conv df_fc skus dr
           = Inr (Some ((df_assign df_fc ''date'' ts)
                \<lparr>rows := filter (keep_row_spec skus [] (range_of dr))
                           (rows (df_assign df_fc ''date'' ts))\<rparr>))"
proof -
  let ?d = "df_assign df_fc ''date'' ts"
  have cols: "columns ?d = columns df_fc" using assms(3) by (rule columns_assign_present)
  have 1: "(if skus = [] then Inr ?d else filter_isin ?d ''sku'' skus)
        = Inr (?d\<lparr>rows := filter (keep_row_spec skus [] None) (rows ?d)\<rparr>)"
    using assms(2) cols by (simp add: filter_isin_present keep_row_spec_fun)
  let ?d1 = "?d\<lparr>rows := filter (keep_row_spec skus [] None) (rows ?d)\<rparr>"
  have 2: "filter_between ?d1 ''date'' a b
       = Inr (?d\<lparr>rows := filter (keep_row_spec skus [] (Some (a, b))) (rows ?d)\<rparr>)" for a b
    using assms(3) cols
    by (simp add: filter_between_present between_spec keep_row_spec_fun conj_commute)
  show ?thesis
    using assms(1,3,4)
    by (simp add: page_forecasting_filter_def df_getitem_def 1 2 range_of_def
        split: option.splits list.splits)
qed

lemma page_recommendations_filter_spec:
  assumes "\<not> df_empty df_rec" and "''sku'' \<in> set (columns df_rec)"
    and "''supplier'' \<in> set (columns df_rec)"
  shows "page_recommendations_filter df_rec skus sups
           = Inr (Some (df_rec\<lparr>rows := filter (keep_row_spec skus sups None) (rows df_rec)\<rparr>))"
  using assms
  by (simp add: page_recommendations_filter_def filter_isin_present keep_row_spec_fun conj_commute)

section \<open>Reorder suggestions: lemmas\<close>

lemma cell_of_select:
  "c \<in> set cs \<Longrightarrow> cell_of (map (\<lambda>c. (c, cell_of r c)) cs) c = cell_of r c"
  by (simp add: cell_of_def map_of_map_restrict)

lemma series_select: "c \<in> set cs \<Longrightarrow> series (df_select df cs) c = series df c"
  by (simp add: series_def df_select_def cell_of_select comp_def)

lemma columns_assign: "c \<in> set (columns (df_assign df c vs))"
  by (simp add: df_assign_def)

lemma columns_assign_mono: "d \<in> set (columns df) \<Longrightarrow> d \<in> set (columns (df_assign df c vs))"
  by (simp add: df_assign_def)

lemma comparable_labels: "comparable (map (\<lambda>v. Str (f v)) cs)"
  by (auto simp: comparable_def dropna_def list_all_iff is_str_def)

lemma label_order: "label_high < label_medium" "label_medium < label_low"
  by (simp_all add: label_high_def label_medium_def label_low_def)

lemma cell_key_str: "cell_key (Str s) \<le> cell_key (Str t) \<longleftrightarrow> s \<le> t"
  by (simp add: cell_key_def less_eq_prod_def)

lemma cell_key_null_last: "\<not> is_null c \<Longrightarrow> cell_key c < cell_key NaN"
  by (cases c) (simp_all add: cell_key_def less_prod_def is_null_def)

lemma reorder_suggestions_sorted:
  assumes "''urgency'' \<in> set (columns df_rec)" and "''sku'' \<in> set (columns df_rec)"
    and "comparable (series df_rec ''sku'')"
  shows "\<exists>out. reorder_suggestions repr df_rec = Inr out
           \<and> mset (map (\<lambda>r. (cell_of r ''Urgency'', cell_of r ''sku'')) (rows out))
               = mset (map (\<lambda>r. (Str (urgency_label repr (cell_of r ''urgency'')), cell_of r ''sku''))
                       (rows df_rec))
           \<and> sorted_wrt (\<lambda>r1 r2.
                 str_of (cell_of r1 ''Urgency'') < str_of (cell_of r2 ''Urgency'')
                 \<or> (str_of (cell_of r1 ''Urgency'') = str_of (cell_of r2 ''Urgency'')
                     \<and> cell_key (cell_of r1 ''sku'') \<le> cell_key (cell_of r2 ''sku'')))
               (rows out)"
proof -
  let ?labels = "map (\<lambda>v. Str (urgency_label repr v)) (series df_rec ''urgency'')"
  let ?display = "df_assign df_rec ''Urgency'' ?labels"
  let ?cols = "filter (\<lambda>c. c \<in> set (columns ?display)) columns_to_show_all"
  let ?shown = "df_select ?display ?cols"
  let ?K = "\<lambda>r. (cell_key (cell_of r ''Urgency''), cell_key (cell_of r ''sku''))"
  let ?out = "?shown\<lparr>rows := sort_key ?K (rows ?shown)\<rparr>"
  have d: "with_urgency repr df_rec = ?display" using assms(1) by (simp add: with_urgency_def)
  have len: "length ?labels = length (rows df_rec)" by (simp add: series_def)
  have cu: "''Urgency'' \<in> set ?cols"
    by (simp add: columns_assign columns_to_show_all_def)
  have cs: "''sku'' \<in> set ?cols"
    using assms(2) by (simp add: columns_assign_mono columns_to_show_all_def)
  have su: "series ?shown ''Urgency'' = ?labels"
    by (simp add: series_select [OF cu] series_assign [OF len])
  have ss: "series ?shown ''sku'' = series df_rec ''sku''"
    using series_select [OF cs, of ?display] series_assign [OF len, of "''Urgency''" "''sku''"]
    by simp
  have csh: "columns ?shown = ?cols" by (simp add: df_select_def)
  have cmp: "comparable (series ?shown ''Urgency'')" "comparable (series ?shown ''sku'')"
    unfolding su ss using assms(3) by (simp_all add: comparable_labels)
  have "sort_values2 ?shown ''Urgency'' ''sku'' = Inr ?out"
    unfolding sort_values2_def csh using cu cs cmp by (simp only: if_True simp_thms)
  then have res: "reorder_suggestions repr df_rec = Inr ?out"
    by (simp only: reorder_suggestions_def d Let_def)
  have pairs: "map (\<lambda>r. (cell_of r ''Urgency'', cell_of r ''sku'')) (rows ?shown)
      = map (\<lambda>r. (Str (urgency_label repr (cell_of r ''urgency'')), cell_of r ''sku'')) (rows df_rec)"
  proof -
    have "map (\<lambda>r. (cell_of r ''Urgency'', cell_of r ''sku'')) (rows ?shown)
        = zip (series ?shown ''Urgency'') (series ?shown ''sku'')"
      by (simp add: series_def zip_map_map zip_same_conv_map)
    also have "\<dots> = zip ?labels (series df_rec ''sku'')" by (simp only: su ss)
    also have "\<dots> = map (\<lambda>r. (Str (urgency_label repr (cell_of r ''urgency'')), cell_of r ''sku''))
        (rows df_rec)"
      by (simp add: series_def zip_map_map zip_same_conv_map)
    finally show ?thesis .
  qed
  have m: "mset (map (\<lambda>r. (cell_of r ''Urgency'', cell_of r ''sku'')) (rows ?out))
      = mset (map (\<lambda>r. (Str (urgency_label repr (cell_of r ''urgency'')), cell_of r ''sku''))
                       (rows df_rec))"
  proof -
    have "mset (map (\<lambda>r. (cell_of r ''Urgency'', cell_of r ''sku'')) (rows ?out))
        = mset (map (\<lambda>r. (cell_of r ''Urgency'', cell_of r ''sku'')) (rows ?shown))"
      by simp
    with pairs show ?thesis by simp
  qed
  have isl: "\<exists>s. cell_of r ''Urgency'' = Str s" if "r \<in> set (rows ?shown)" for r
  proof -
    from that have "cell_of r ''Urgency'' \<in> set (series ?shown ''Urgency'')"
      by (auto simp: series_def)
    then show ?thesis unfolding su by auto
  qed
  have "sorted (map ?K (rows ?out))" by simp
  then have "sorted_wrt (\<lambda>r1 r2. ?K r1 \<le> ?K r2) (rows ?out)"
    by (simp add: sorted_map)
  moreover have "set (rows ?out) = set (rows ?shown)" by simp
  ultimately have "sorted_wrt (\<lambda>r1 r2.
                 str_of (cell_of r1 ''Urgency'') < str_of (cell_of r2 ''Urgency'')
                 \<or> (str_of (cell_of r1 ''Urgency'') = str_of (cell_of r2 ''Urgency'')
                     \<and> cell_key (cell_of r1 ''sku'') \<le> cell_key (cell_of r2 ''sku'')))
               (rows ?out)"
  proof (elim sorted_wrt_mono_rel [rotated])
    fix r1 r2
    assume "r1 \<in> set (rows ?out)" "r2 \<in> set (rows ?out)" and le: "?K r1 \<le> ?K r2"
    with \<open>set (rows ?out) = set (rows ?shown)\<close> isl
    obtain s1 s2 where "cell_of r1 ''Urgency'' = Str s1" "cell_of r2 ''Urgency'' = Str s2"
      by blast
    with le show "str_of (cell_of r1 ''Urgency'') < str_of (cell_of r2 ''Urgency'')
                 \<or> (str_of (cell_of r1 ''Urgency'') = str_of (cell_of r2 ''Urgency'')
                     \<and> cell_key (cell_of r1 ''sku'') \<le> cell_key (cell_of r2 ''sku''))"
      by (auto simp: less_eq_prod_def less_prod_def cell_key_def str_of_def)
  qed
  with res m show ?thesis by blast
qed

section \<open>Top N by metric: lemmas\<close>







































section \<open>The properties of the specification\<close>

text \<open>
  C4. \<^verbatim>\<open>urgency_label\<close> compares the lower-cased text of its argument with \<^verbatim>\<open>high\<close> and
  \<^verbatim>\<open>medium\<close>: \<^verbatim>\<open>HIGH\<close>, \<^verbatim>\<open>High\<close> and \<^verbatim>\<open>high\<close> give the same high label, two strings
  that differ only in case give the same label, \<^verbatim>\<open>unknown\<close>, \<^verbatim>\<open>None\<close> and every value whose
  lower-cased text is neither word give the low label, and the result is always one of
  three different labels.
\<close>

theorem urgency_label_case_insensitive_total:
  "urgency_label repr (Str ''HIGH'') = label_high
   \<and> urgency_label repr (Str ''High'') = label_high
   \<and> urgency_label repr (Str ''high'') = label_high
   \<and> urgency_label repr (Str ''MEDIUM'') = label_medium
   \<and> urgency_label repr (Str ''unknown'') = label_low
   \<and> urgency_label repr PyNone = label_low
   \<and> urgency_label repr NaN = label_low
   \<and> (py_lower s = py_lower t \<longrightarrow> urgency_label repr (Str s) = urgency_label repr (Str t))
   \<and> (py_lower (py_str repr v) \<noteq> ''high'' \<and> py_lower (py_str repr v) \<noteq> ''medium''
        \<longrightarrow> urgency_label repr v = label_low)
   \<and> (urgency_label repr v = label_high \<longleftrightarrow> py_lower (py_str repr v) = ''high'')
   \<and> (urgency_label repr v = label_medium \<longleftrightarrow> py_lower (py_str repr v) = ''medium'')
   \<and> urgency_label repr v \<in> {label_high, label_medium, label_low}
   \<and> label_high \<noteq> label_medium \<and> label_high \<noteq> label_low \<and> label_medium \<noteq> label_low"
proof -
  have ex: "urgency_label repr (Str ''HIGH'') = label_high"
    "urgency_label repr (Str ''High'') = label_high"
    "urgency_label repr (Str ''high'') = label_high"
    "urgency_label repr (Str ''MEDIUM'') = label_medium"
    "urgency_label repr (Str ''unknown'') = label_low"
    "urgency_label repr PyNone = label_low"
    "urgency_label repr NaN = label_low"
    by (simp_all add: urgency_label_def py_str_def py_lower_def lower_char_def)
  have ci: "py_lower s = py_lower t \<longrightarrow> urgency_label repr (Str s) = urgency_label repr (Str t)"
    by (simp add: urgency_label_def py_str_def)
  have rest: "(py_lower (py_str repr v) \<noteq> ''high'' \<and> py_lower (py_str repr v) \<noteq> ''medium''
        \<longrightarrow> urgency_label repr v = label_low)"
    "urgency_label repr v = label_high \<longleftrightarrow> py_lower (py_str repr v) = ''high''"
    "urgency_label repr v = label_medium \<longleftrightarrow> py_lower (py_str repr v) = ''medium''"
    "urgency_label repr v \<in> {label_high, label_medium, label_low}"
    using labels_distinct by (auto simp: urgency_label_def Let_def)
  show ?thesis using ex ci rest labels_distinct by blast
qed

theorem urgency_label_case_insensitive_total_witness:
  "py_lower ''hIgH'' = py_lower ''HIGH''
   \<and> urgency_label (\<lambda>c. ''0'') (Str ''hIgH'') = urgency_label (\<lambda>c. ''0'') (Str ''HIGH'')
   \<and> py_lower (py_str (\<lambda>c. ''0'') (Num 3)) \<noteq> ''high''
   \<and> py_lower (py_str (\<lambda>c. ''0'') (Num 3)) \<noteq> ''medium''
   \<and> urgency_label (\<lambda>c. ''0'') (Num 3) = label_low"
proof -
  have a: "py_lower ''hIgH'' = py_lower ''HIGH''"
    by (simp add: py_lower_def lower_char_def)
  have b: "py_lower (py_str (\<lambda>c. ''0'') (Num 3)) \<noteq> ''high''"
    "py_lower (py_str (\<lambda>c. ''0'') (Num 3)) \<noteq> ''medium''"
    by (simp_all add: py_lower_def py_str_def lower_char_def)
  from a b
    urgency_label_case_insensitive_total
      [of "\<lambda>c. ''0''" "''hIgH''" "''HIGH''" "Num 3"]
  show ?thesis by blast
qed

text \<open>
  C8. When the backing file of a dataset does not exist, the body of \<^verbatim>\<open>load_csv\<close> returns
  the empty table and raises nothing, and so does the memoized \<^verbatim>\<open>load_csv\<close> in every
  state whose memo table agrees with storage.
\<close>

theorem load_missing_file_empty:
  assumes "files st path = None" and "cache_ok read_csv st"
  shows "load_csv_body read_csv (files st) path = Inr empty_df
         \<and> fst (load_csv read_csv st path) = Inr empty_df
         \<and> df_empty empty_df"
proof -
  have b: "load_csv_body read_csv (files st) path = Inr empty_df"
    using assms(1) by (simp add: load_csv_body_def)
  have "fst (load_csv read_csv st path) = load_csv_body read_csv (files st) path"
    using assms(2) by (rule load_csv_hit_ok)
  with b show ?thesis by (simp add: df_empty_def empty_df_def)
qed

theorem load_missing_file_empty_witness:
  "files \<lparr>files = Map.empty, data_dir = True, csv_cache = Map.empty, all_cache = None\<rparr>
       ''sales.csv'' = None
   \<and> cache_ok (\<lambda>b. Inl ParserError)
       \<lparr>files = Map.empty, data_dir = True, csv_cache = Map.empty, all_cache = None\<rparr>
   \<and> fst (load_csv (\<lambda>b. Inl ParserError)
       \<lparr>files = Map.empty, data_dir = True, csv_cache = Map.empty, all_cache = None\<rparr>
       ''sales.csv'') = Inr empty_df"
proof -
  let ?st = "\<lparr>files = Map.empty, data_dir = True, csv_cache = Map.empty, all_cache = None\<rparr>"
  have h1: "files ?st ''sales.csv'' = None" by simp
  have h2: "cache_ok (\<lambda>b. Inl ParserError) ?st" by (simp add: cache_ok_def)
  from load_missing_file_empty [OF h1 h2] h1 h2 show ?thesis by simp
qed

text \<open>
  C6. When the file in a slot cannot be parsed, the body of the loop for that slot ends
  with the parser's exception and changes no file and no memo table; \<^verbatim>\<open>sidebar_uploaders\<close>
  then ends with an exception and the storage file of that slot holds what it held before,
  whatever the other slots hold; when that slot is the only one with a file, the exception
  is the parser's and nothing but the existence of the data directory has changed.
\<close>

theorem upload_unparseable_keeps_storage:
  assumes "(label, fname) \<in> set upload_mapping"
    and "uploaded label = Some upl"
    and "read_csv upl = Inl e"
  shows "upload_slot read_csv to_csv fname upl st0 = (Some e, ensure_data_dir st0)
         \<and> files (ensure_data_dir st0) = files st0
         \<and> csv_cache (ensure_data_dir st0) = csv_cache st0
         \<and> all_cache (ensure_data_dir st0) = all_cache st0
         \<and> fst (sidebar_uploaders read_csv to_csv uploaded st) \<noteq> None
         \<and> files (snd (sidebar_uploaders read_csv to_csv uploaded st)) fname = files st fname
         \<and> ((\<forall>l. l \<noteq> label \<longrightarrow> uploaded l = None) \<longrightarrow>
              sidebar_uploaders read_csv to_csv uploaded st = (Some e, ensure_data_dir st))"
proof -
  have s: "upload_slot read_csv to_csv fname upl st0 = (Some e, ensure_data_dir st0)"
    using assms(3) by (rule upload_slot_fails)
  have a: "fst (sidebar_uploaders read_csv to_csv uploaded st) \<noteq> None
         \<and> files (snd (sidebar_uploaders read_csv to_csv uploaded st)) fname = files st fname"
    unfolding sidebar_uploaders_def
    using uploaders_loop_keeps_file [where label = label and fname = fname
        and ms = upload_mapping and uploaded = uploaded and upl = upl and rd = read_csv
        and e = e and wr = to_csv and st = st]
      assms upload_mapping_distinct
    by blast
  have b: "sidebar_uploaders read_csv to_csv uploaded st = (Some e, ensure_data_dir st)"
    if only: "\<forall>l. l \<noteq> label \<longrightarrow> uploaded l = None"
  proof -
    from assms(1) have "label \<in> fst ` set upload_mapping" by force
    then show ?thesis
      unfolding sidebar_uploaders_def
      using uploaders_loop_single [where label = label and ms = upload_mapping
          and uploaded = uploaded and upl = upl and rd = read_csv and e = e
          and wr = to_csv and st = st]
        only assms(2) assms(3)
      by blast
  qed
  from s a b show ?thesis by (simp add: ensure_data_dir_def)
qed

theorem upload_unparseable_keeps_storage_witness:
  "(''Sales'', ''sales.csv'') \<in> set upload_mapping
   \<and> [''Sales'' \<mapsto> ''%PDF''] ''Sales'' = Some ''%PDF''
   \<and> (\<lambda>b. if b = ''%PDF'' then Inl ParserError else Inr empty_df) ''%PDF'' = Inl ParserError
   \<and> sidebar_uploaders (\<lambda>b. if b = ''%PDF'' then Inl ParserError else Inr empty_df)
        (\<lambda>df. ''x'') [''Sales'' \<mapsto> ''%PDF'']
        \<lparr>files = [''sales.csv'' \<mapsto> ''sku,qty''], data_dir = True,
         csv_cache = Map.empty, all_cache = None\<rparr>
      = (Some ParserError,
         \<lparr>files = [''sales.csv'' \<mapsto> ''sku,qty''], data_dir = True,
          csv_cache = Map.empty, all_cache = None\<rparr>)"
proof -
  have h1: "(''Sales'', ''sales.csv'') \<in> set upload_mapping"
    by (simp add: upload_mapping_def)
  have h2: "[''Sales'' \<mapsto> ''%PDF''] ''Sales'' = Some ''%PDF''" by simp
  have h3: "(\<lambda>b. if b = ''%PDF'' then Inl ParserError else Inr empty_df) ''%PDF''
              = Inl ParserError" by simp
  have h4: "\<forall>l. l \<noteq> ''Sales'' \<longrightarrow> [''Sales'' \<mapsto> ''%PDF''] l = None" by simp
  from upload_unparseable_keeps_storage [where label = "''Sales''" and fname = "''sales.csv''"
      and uploaded = "[''Sales'' \<mapsto> ''%PDF'']" and upl = "''%PDF''"
      and read_csv = "\<lambda>b. if b = ''%PDF'' then Inl ParserError else Inr empty_df"
      and e = ParserError and to_csv = "\<lambda>df. ''x''"
      and st = "\<lparr>files = [''sales.csv'' \<mapsto> ''sku,qty''], data_dir = True,
        csv_cache = Map.empty, all_cache = None\<rparr>"] h1 h2 h3 h4
  have "sidebar_uploaders (\<lambda>b. if b = ''%PDF'' then Inl ParserError else Inr empty_df)
        (\<lambda>df. ''x'') [''Sales'' \<mapsto> ''%PDF'']
        \<lparr>files = [''sales.csv'' \<mapsto> ''sku,qty''], data_dir = True,
         csv_cache = Map.empty, all_cache = None\<rparr>
      = (Some ParserError, ensure_data_dir
         \<lparr>files = [''sales.csv'' \<mapsto> ''sku,qty''], data_dir = True,
          csv_cache = Map.empty, all_cache = None\<rparr>)"
    by blast
  with h1 h2 h3 show ?thesis by (simp add: ensure_data_dir_def)
qed

text \<open>
  C7. When \<^verbatim>\<open>sidebar_uploaders\<close> has saved the file of a slot and ended without an
  exception, the file of the slot holds the uploaded table, both memo tables are empty, and
  the next load of every path, and the next \<^verbatim>\<open>get_all_data\<close>, return what storage holds
  now, whatever was memoized before. The body of the loop for the slot, run in any state,
  leaves both memo tables empty: the tables of all datasets, not of the slot alone.
\<close>

theorem upload_success_invalidates_all:
  assumes "(label, fname) \<in> set upload_mapping"
    and "uploaded label = Some upl"
    and "sidebar_uploaders read_csv to_csv uploaded st = (None, st')"
  shows "csv_cache st' = Map.empty \<and> all_cache st' = None
         \<and> (\<exists>df. read_csv upl = Inr df \<and> files st' fname = Some (to_csv df)
               \<and> upload_slot read_csv to_csv fname upl st0
                   = (None, \<lparr>files = (files st0)(fname \<mapsto> to_csv df), data_dir = True,
                             csv_cache = Map.empty, all_cache = None\<rparr>))
         \<and> (\<forall>path. fst (load_csv read_csv st' path) = load_csv_body read_csv (files st') path)
         \<and> fst (get_all_data read_csv st') = fresh_each read_csv (files st') dataset_files"
proof -
  from assms(3) have r: "fst (uploaders_loop read_csv to_csv uploaded upload_mapping st) = None"
    and s: "st' = snd (uploaders_loop read_csv to_csv uploaded upload_mapping st)"
    by (simp_all add: sidebar_uploaders_def)
  have c: "csv_cache st' = Map.empty \<and> all_cache st' = None"
    unfolding s
    using uploaders_loop_clears [where label = label and fname = fname and ms = upload_mapping
        and uploaded = uploaded and upl = upl and rd = read_csv and wr = to_csv and st = st]
      assms(1) assms(2) r
    by blast
  have f0: "\<exists>df. read_csv upl = Inr df \<and> files st' fname = Some (to_csv df)"
    unfolding s
    using uploaders_loop_saved [where label = label and fname = fname and ms = upload_mapping
        and uploaded = uploaded and upl = upl and rd = read_csv and wr = to_csv and st = st]
      assms(1) assms(2) r upload_mapping_distinct
    by blast
  from f0 upload_slot_saves [of read_csv upl _ to_csv fname st0]
  have f: "\<exists>df. read_csv upl = Inr df \<and> files st' fname = Some (to_csv df)
               \<and> upload_slot read_csv to_csv fname upl st0
                   = (None, \<lparr>files = (files st0)(fname \<mapsto> to_csv df), data_dir = True,
                             csv_cache = Map.empty, all_cache = None\<rparr>)"
    by blast
  have l: "fst (load_csv read_csv st' path) = load_csv_body read_csv (files st') path" for path
    using c by (intro load_csv_miss) simp
  have g: "fst (get_all_data read_csv st') = fresh_each read_csv (files st') dataset_files"
    using c by (intro get_all_data_fresh) simp_all
  from c f l g show ?thesis by blast
qed

theorem upload_success_invalidates_all_witness:
  "(''Sales'', ''sales.csv'') \<in> set upload_mapping
   \<and> [''Sales'' \<mapsto> ''sku''] ''Sales'' = Some ''sku''
   \<and> sidebar_uploaders (\<lambda>b. Inr \<lparr>columns = [b], rows = []\<rparr>) (\<lambda>df. concat (columns df))
        [''Sales'' \<mapsto> ''sku'']
        \<lparr>files = Map.empty, data_dir = False,
         csv_cache = [''kpis.csv'' \<mapsto> \<lparr>columns = [''total_sales''], rows = [[(''total_sales'', Num 7)]]\<rparr>],
         all_cache = Some []\<rparr>
      = (None, \<lparr>files = [''sales.csv'' \<mapsto> ''sku''], data_dir = True,
                csv_cache = Map.empty, all_cache = None\<rparr>)
   \<and> fst (load_csv (\<lambda>b. Inr \<lparr>columns = [b], rows = []\<rparr>)
        \<lparr>files = [''sales.csv'' \<mapsto> ''sku''], data_dir = True,
         csv_cache = Map.empty, all_cache = None\<rparr> ''kpis.csv'') = Inr empty_df"
proof -
  let ?rd = "\<lambda>b. Inr \<lparr>columns = [b], rows = []\<rparr> :: py_error + dataframe"
  let ?st' = "\<lparr>files = [''sales.csv'' \<mapsto> ''sku''], data_dir = True,
                csv_cache = Map.empty, all_cache = None\<rparr>"
  have h1: "(''Sales'', ''sales.csv'') \<in> set upload_mapping"
    by (simp add: upload_mapping_def)
  have h2: "[''Sales'' \<mapsto> ''sku''] ''Sales'' = Some ''sku''" by simp
  have h3: "sidebar_uploaders ?rd (\<lambda>df. concat (columns df)) [''Sales'' \<mapsto> ''sku'']
        \<lparr>files = Map.empty, data_dir = False,
         csv_cache = [''kpis.csv'' \<mapsto> \<lparr>columns = [''total_sales''], rows = [[(''total_sales'', Num 7)]]\<rparr>],
         all_cache = Some []\<rparr> = (None, ?st')"
    by (simp add: sidebar_uploaders_def upload_mapping_def ensure_data_dir_def cache_clear_def)
  from upload_success_invalidates_all [where label = "''Sales''" and fname = "''sales.csv''"
      and uploaded = "[''Sales'' \<mapsto> ''sku'']" and upl = "''sku''" and read_csv = ?rd
      and to_csv = "\<lambda>df. concat (columns df)" and st' = ?st'
      and st = "\<lparr>files = Map.empty, data_dir = False,
         csv_cache = [''kpis.csv'' \<mapsto> \<lparr>columns = [''total_sales''], rows = [[(''total_sales'', Num 7)]]\<rparr>],
         all_cache = Some []\<rparr>"] h1 h2 h3
  have "fst (load_csv ?rd ?st' ''kpis.csv'') = load_csv_body ?rd (files ?st') ''kpis.csv''"
    by blast
  then have "fst (load_csv ?rd ?st' ''kpis.csv'') = Inr empty_df"
    by (simp add: load_csv_body_def)
  with h1 h2 h3 show ?thesis by simp
qed

text \<open>
  C9. The order is not lexicographic for every pair of tables, and \<^verbatim>\<open>all_skus\<close> does not
  always return: \<^verbatim>\<open>read_csv\<close> reads skus written in digits as numbers, \<^verbatim>\<open>sorted\<close> then
  orders them by value, 9 before 10, where the order of the texts has 10 before 9; and when
  one table has numbers and the other strings, \<^verbatim>\<open>sorted\<close> raises \<^verbatim>\<open>TypeError\<close>.
\<close>

theorem all_skus_numeric_counterexample:
  "all_skus \<lparr>columns = [''sku''], rows = [[(''sku'', Num 10)], [(''sku'', Num 9)]]\<rparr> empty_df
     = Inr [Num 9, Num 10]
   \<and> ''10'' < ''9''
   \<and> all_skus \<lparr>columns = [''sku''], rows = [[(''sku'', Num 10)], [(''sku'', Num 9)]]\<rparr>
        \<lparr>columns = [''sku''], rows = [[(''sku'', Str ''A'')]]\<rparr>
     = Inl TypeError"
  by (simp add: all_skus_def df_get_def series_def cell_of_def empty_df_def dropna_def
      is_null_def unique_def py_sorted_def is_str_def is_num_def is_ts_def num_of_def)

text \<open>
  C9, amended. When the sku cells of both tables are strings or missing values, \<^verbatim>\<open>all_skus\<close>
  returns, without an exception, the sku values of both tables that are not missing, each
  once, in strictly ascending lexicographic order, whatever order \<^verbatim>\<open>set\<close> hands them over
  in; a table without an sku column contributes none.
\<close>

theorem all_skus_sorted_union:
  assumes "list_all (\<lambda>c. is_str c \<or> is_null c) (df_get df_forecast ''sku'' [])"
    and "list_all (\<lambda>c. is_str c \<or> is_null c) (df_get df_reco ''sku'' [])"
  shows "(\<exists>ys. all_skus df_forecast df_reco = Inr ys
            \<and> set ys = {c \<in> set (df_get df_forecast ''sku'' []) \<union> set (df_get df_reco ''sku'' []).
                         \<not> is_null c}
            \<and> distinct ys
            \<and> sorted_wrt (<) (map str_of ys))
         \<and> (distinct zs
              \<and> set zs = set (df_get df_forecast ''sku'' [] @ df_get df_reco ''sku'' []) - {NaN, PyNone}
              \<longrightarrow> py_sorted zs = all_skus df_forecast df_reco)
         \<and> (''sku'' \<notin> set (columns df_forecast) \<longrightarrow> df_get df_forecast ''sku'' [] = [])
         \<and> (''sku'' \<notin> set (columns df_reco) \<longrightarrow> df_get df_reco ''sku'' [] = [])"
proof -
  let ?xs = "remdups (unique (dropna (df_get df_forecast ''sku'' []))
                         @ unique (dropna (df_get df_reco ''sku'' [])))"
  have s: "set ?xs = {c \<in> set (df_get df_forecast ''sku'' []) \<union> set (df_get df_reco ''sku'' []).
                         \<not> is_null c}"
    by (auto simp: set_dropna)
  have "list_all is_str ?xs"
    using assms unfolding list_all_iff s by auto
  then have o: "py_sorted zs = py_sorted ?xs" if "distinct zs" "set zs = set ?xs" for zs
    using that by (intro py_sorted_any_order) simp_all
  have n: "set (df_get df_forecast ''sku'' [] @ df_get df_reco ''sku'' []) - {NaN, PyNone} = set ?xs"
    unfolding s by (auto simp: is_null_iff)
  have a: "\<exists>ys. all_skus df_forecast df_reco = Inr ys
            \<and> set ys = {c \<in> set (df_get df_forecast ''sku'' []) \<union> set (df_get df_reco ''sku'' []).
                         \<not> is_null c}
            \<and> distinct ys
            \<and> sorted_wrt (<) (map str_of ys)"
    using py_sorted_strings [OF \<open>list_all is_str ?xs\<close>] unfolding s all_skus_def by simp
  have b: "distinct zs
              \<and> set zs = set (df_get df_forecast ''sku'' [] @ df_get df_reco ''sku'' []) - {NaN, PyNone}
              \<longrightarrow> py_sorted zs = all_skus df_forecast df_reco"
    unfolding n all_skus_def using o by blast
  have c: "''sku'' \<notin> set (columns df) \<longrightarrow> df_get df ''sku'' [] = []" for df
    by (simp add: df_get_absent)
  from a b c [of df_forecast] c [of df_reco] show ?thesis by blast
qed

theorem all_skus_sorted_union_witness:
  "list_all (\<lambda>c. is_str c \<or> is_null c)
     (df_get \<lparr>columns = [''sku'', ''forecast_qty''],
              rows = [[(''sku'', Str ''B''), (''forecast_qty'', Num 1)],
                      [(''sku'', NaN), (''forecast_qty'', Num 2)],
                      [(''sku'', Str ''A''), (''forecast_qty'', Num 3)],
                      [(''sku'', Str ''B''), (''forecast_qty'', Num 4)]]\<rparr> ''sku'' [])
   \<and> list_all (\<lambda>c. is_str c \<or> is_null c)
     (df_get \<lparr>columns = [''urgency''], rows = [[(''urgency'', Str ''high'')]]\<rparr> ''sku'' [])
   \<and> ''sku'' \<notin> set (columns \<lparr>columns = [''urgency''], rows = [[(''urgency'', Str ''high'')]]\<rparr>)
   \<and> all_skus
       \<lparr>columns = [''sku'', ''forecast_qty''],
        rows = [[(''sku'', Str ''B''), (''forecast_qty'', Num 1)],
                [(''sku'', NaN), (''forecast_qty'', Num 2)],
                [(''sku'', Str ''A''), (''forecast_qty'', Num 3)],
                [(''sku'', Str ''B''), (''forecast_qty'', Num 4)]]\<rparr>
       \<lparr>columns = [''urgency''], rows = [[(''urgency'', Str ''high'')]]\<rparr>
     = Inr [Str ''A'', Str ''B'']"
proof -
  let ?fc = "\<lparr>columns = [''sku'', ''forecast_qty''],
        rows = [[(''sku'', Str ''B''), (''forecast_qty'', Num 1)],
                [(''sku'', NaN), (''forecast_qty'', Num 2)],
                [(''sku'', Str ''A''), (''forecast_qty'', Num 3)],
                [(''sku'', Str ''B''), (''forecast_qty'', Num 4)]]\<rparr>"
  let ?rc = "\<lparr>columns = [''urgency''], rows = [[(''urgency'', Str ''high'')]]\<rparr>"
  have g1: "df_get ?fc ''sku'' [] = [Str ''B'', NaN, Str ''A'', Str ''B'']"
    by (simp add: df_get_def series_def cell_of_def)
  have g2: "df_get ?rc ''sku'' [] = []"
    by (simp add: df_get_def)
  have h1: "list_all (\<lambda>c. is_str c \<or> is_null c) (df_get ?fc ''sku'' [])"
    unfolding g1 by (simp add: is_str_def is_null_def)
  have h2: "list_all (\<lambda>c. is_str c \<or> is_null c) (df_get ?rc ''sku'' [])"
    unfolding g2 by simp
  have h3: "''sku'' \<notin> set (columns ?rc)" by simp
  from all_skus_sorted_union [OF h1 h2]
  obtain ys where ys: "all_skus ?fc ?rc = Inr ys"
    and st: "set ys = {c \<in> set (df_get ?fc ''sku'' []) \<union> set (df_get ?rc ''sku'' []). \<not> is_null c}"
    and so: "sorted_wrt (<) (map str_of ys)"
    by blast
  have "all_skus ?fc ?rc = Inr [Str ''A'', Str ''B'']"
    unfolding all_skus_def g1 g2
    by (simp add: unique_def dropna_def is_null_def py_sorted_def is_str_def str_of_def)
  with h1 h2 h3 ys show ?thesis by simp
qed

text \<open>
  C10. Each KPI card takes its value from the first row only: on a table that is not empty
  the value is \<^verbatim>\<open>float\<close> of the entry of row 0 under the column, whatever rows follow;
  when the table is empty or the column is missing the value is 0.
\<close>

theorem kpi_cards_first_row_only:
  "(df_empty df \<longrightarrow> kpi_value parse df col = Inr (Num 0)
                   \<and> kpi_cards parse df = Inr [Num 0, Num 0, Num 0, Num 0, Num 0])
   \<and> (\<not> df_empty df \<and> col \<notin> set (columns df) \<longrightarrow> kpi_value parse df col = Inr (Num 0))
   \<and> (\<not> df_empty df \<and> col \<in> set (columns df) \<longrightarrow>
        kpi_value parse df col = py_float parse (cell_of (hd (rows df)) col))
   \<and> (col \<in> set cs \<and> cell_of r col = Num x \<longrightarrow>
        kpi_value parse \<lparr>columns = cs, rows = r # rest\<rparr> col = Inr (Num x))
   \<and> kpi_value parse \<lparr>columns = cs, rows = r # rest\<rparr> col
       = kpi_value parse \<lparr>columns = cs, rows = [r]\<rparr> col
   \<and> kpi_cards parse \<lparr>columns = cs, rows = r # rest\<rparr>
       = kpi_cards parse \<lparr>columns = cs, rows = [r]\<rparr>
   \<and> kpi_cards parse df = collect (map (kpi_value parse df) kpi_columns)"
proof -
  have a: "col \<in> set cs \<and> cell_of r col = Num x \<longrightarrow>
        kpi_value parse \<lparr>columns = cs, rows = r # rest\<rparr> col = Inr (Num x)"
    by (auto simp: kpi_value_def df_get_def iloc0_def df_empty_def series_def py_float_def)
  have b: "kpi_value parse \<lparr>columns = cs, rows = r # rest\<rparr>
             = kpi_value parse \<lparr>columns = cs, rows = [r]\<rparr>"
    by (rule kpi_value_rest)
  have c: "kpi_value parse \<lparr>columns = cs, rows = r # rest\<rparr> col
             = kpi_value parse \<lparr>columns = cs, rows = [r]\<rparr> col"
    by (simp only: b)
  have d: "kpi_cards parse \<lparr>columns = cs, rows = r # rest\<rparr>
             = kpi_cards parse \<lparr>columns = cs, rows = [r]\<rparr>"
    by (simp only: kpi_cards_def b)
  have e: "kpi_cards parse df = collect (map (kpi_value parse df) kpi_columns)"
    by (simp only: kpi_cards_def)
  have f: "df_empty df \<longrightarrow> kpi_value parse df col = Inr (Num 0)
                   \<and> kpi_cards parse df = Inr [Num 0, Num 0, Num 0, Num 0, Num 0]"
    using kpi_value_empty [of df parse col] kpi_cards_empty [of df parse] by blast
  have g: "\<not> df_empty df \<and> col \<notin> set (columns df) \<longrightarrow> kpi_value parse df col = Inr (Num 0)"
    using kpi_value_absent [of df col parse] by blast
  have h: "\<not> df_empty df \<and> col \<in> set (columns df) \<longrightarrow>
        kpi_value parse df col = py_float parse (cell_of (hd (rows df)) col)"
    using kpi_value_row0 [of df col parse] by blast
  from a c d e f g h show ?thesis by blast
qed

theorem kpi_cards_first_row_only_witness:
  "df_empty \<lparr>columns = [''total_sales''], rows = []\<rparr>
   \<and> kpi_value (\<lambda>s. None) \<lparr>columns = [''total_sales''], rows = []\<rparr> ''total_sales'' = Inr (Num 0)
   \<and> \<not> df_empty \<lparr>columns = [''total_sales''],
                  rows = [[(''total_sales'', Num 1200)], [(''total_sales'', Num 99)]]\<rparr>
   \<and> ''avg_lead_time_days'' \<notin> set (columns \<lparr>columns = [''total_sales''],
                  rows = [[(''total_sales'', Num 1200)], [(''total_sales'', Num 99)]]\<rparr>)
   \<and> kpi_value (\<lambda>s. None) \<lparr>columns = [''total_sales''],
                  rows = [[(''total_sales'', Num 1200)], [(''total_sales'', Num 99)]]\<rparr>
         ''avg_lead_time_days'' = Inr (Num 0)
   \<and> ''total_sales'' \<in> set [''total_sales'']
   \<and> cell_of [(''total_sales'', Num 1200)] ''total_sales'' = Num 1200
   \<and> kpi_value (\<lambda>s. None) \<lparr>columns = [''total_sales''],
                  rows = [[(''total_sales'', Num 1200)], [(''total_sales'', Num 99)]]\<rparr>
         ''total_sales'' = Inr (Num 1200)"
proof -
  let ?e = "\<lparr>columns = [''total_sales''], rows = []\<rparr>"
  let ?k = "\<lparr>columns = [''total_sales''],
                  rows = [[(''total_sales'', Num 1200)], [(''total_sales'', Num 99)]]\<rparr>"
  have h1: "df_empty ?e" by (simp add: df_empty_def)
  have h2: "\<not> df_empty ?k" by (simp add: df_empty_def)
  have h3: "''avg_lead_time_days'' \<notin> set (columns ?k)" by simp
  have h4: "''total_sales'' \<in> set [''total_sales'']" by simp
  have h5: "cell_of [(''total_sales'', Num 1200)] ''total_sales'' = Num 1200"
    by (simp add: cell_of_def)
  have c1: "kpi_value (\<lambda>s. None) ?e ''total_sales'' = Inr (Num 0)"
    using kpi_cards_first_row_only [of ?e "\<lambda>s. None" "''total_sales''"] h1 by blast
  have c2: "kpi_value (\<lambda>s. None) ?k ''avg_lead_time_days'' = Inr (Num 0)"
    using kpi_cards_first_row_only [of ?k "\<lambda>s. None" "''avg_lead_time_days''"] h2 h3 by blast
  have c3: "kpi_value (\<lambda>s. None) ?k ''total_sales'' = Inr (Num 1200)"
    using kpi_cards_first_row_only [where col = "''total_sales''" and cs = "[''total_sales'']"
        and r = "[(''total_sales'', Num 1200)]" and x = 1200 and parse = "\<lambda>s. None"
        and rest = "[[(''total_sales'', Num 99)]]"] h4 h5
    by blast
  from h1 h2 h3 h4 h5 c1 c2 c3 show ?thesis by blast
qed

text \<open>
  C1. A missing column is meant to give a default and no failure, and the filters are meant
  to skip a column that the table lacks. The pages do otherwise: on a forecast table without
  a date column \<^verbatim>\<open>page_forecasting\<close> raises \<^verbatim>\<open>KeyError\<close> at line 195, before any filter, and
  \<^verbatim>\<open>page_recommendations\<close> raises \<^verbatim>\<open>KeyError\<close> on a table without an sku column when skus are
  selected, and on a table without a supplier column when suppliers are selected.
\<close>

theorem page_filters_raise_on_missing_column:
  "page_forecasting_filter conv
      \<lparr>columns = [''sku'', ''forecast_qty''],
       rows = [[(''sku'', Str ''A''), (''forecast_qty'', Num 10)]]\<rparr> [Str ''A''] None
     = Inl (KeyError ''date'')
   \<and> page_recommendations_filter
      \<lparr>columns = [''urgency''], rows = [[(''urgency'', Str ''high'')]]\<rparr> [Str ''A''] []
     = Inl (KeyError ''sku'')
   \<and> page_recommendations_filter
      \<lparr>columns = [''sku''], rows = [[(''sku'', Str ''A'')]]\<rparr> [] [Str ''S1'']
     = Inl (KeyError ''supplier'')"
  by (simp add: page_forecasting_filter_def page_recommendations_filter_def df_empty_def
      df_getitem_def filter_isin_def)

text \<open>
  C3. No page applies all three selections. \<^verbatim>\<open>page_forecasting\<close> takes no supplier
  selection: with supplier S2 selected it keeps a forecast row of supplier S1, which the
  filter of the specification drops. \<^verbatim>\<open>page_recommendations\<close> takes no date range: with a
  range selected it keeps a row whose date lies before the range.
\<close>

theorem page_filters_third_selection_counterexample:
  "page_forecasting_filter
      (\<lambda>c. if c = Str ''2024-01-01'' then Some 19723 else None)
      \<lparr>columns = [''sku'', ''date'', ''supplier''],
       rows = [[(''sku'', Str ''A''), (''date'', Str ''2024-01-01''), (''supplier'', Str ''S1'')]]\<rparr>
      [] None
     = Inr (Some \<lparr>columns = [''sku'', ''date'', ''supplier''],
       rows = [[(''sku'', Str ''A''), (''date'', Timestamp 19723), (''supplier'', Str ''S1'')]]\<rparr>)
   \<and> \<not> keep_row_spec [] [Str ''S2''] None
         [(''sku'', Str ''A''), (''date'', Timestamp 19723), (''supplier'', Str ''S1'')]
   \<and> page_recommendations_filter
      \<lparr>columns = [''sku'', ''supplier'', ''date''],
       rows = [[(''sku'', Str ''A''), (''supplier'', Str ''S1''), (''date'', Timestamp 19723)]]\<rparr>
      [] []
     = Inr (Some \<lparr>columns = [''sku'', ''supplier'', ''date''],
       rows = [[(''sku'', Str ''A''), (''supplier'', Str ''S1''), (''date'', Timestamp 19723)]]\<rparr>)
   \<and> \<not> keep_row_spec [] [] (Some (19724, 19725))
         [(''sku'', Str ''A''), (''supplier'', Str ''S1''), (''date'', Timestamp 19723)]"
  by (simp add: page_forecasting_filter_def page_recommendations_filter_def df_empty_def
      df_getitem_def series_def cell_of_def to_datetime_def to_datetime_cell_def df_assign_def
      keep_row_spec_def)

text \<open>
  C3, amended. On a table that has the columns it filters by, each page keeps exactly the
  rows that satisfy the filter of the specification for the two selections it takes, in
  their order: \<^verbatim>\<open>page_forecasting\<close> with the sku set and the date range (after the date column
  went through \<^verbatim>\<open>pd.to_datetime\<close>) and no supplier set, \<^verbatim>\<open>page_recommendations\<close> with the sku
  set and the supplier set and no date range. An empty set or an absent date range filters
  nothing, and the sku set \<^verbatim>\<open>{A}\<close> keeps only rows whose sku is \<^verbatim>\<open>A\<close>.
\<close>

theorem page_filters_keep_spec_rows:
  assumes "\<not> df_empty df_fc" and "''sku'' \<in> set (columns df_fc)"
    and "''date'' \<in> set (columns df_fc)"
    and "to_datetime conv (series df_fc ''date'') = Inr ts"
    and "\<not> df_empty df_rec" and "''sku'' \<in> set (columns df_rec)"
    and "''supplier'' \<in> set (columns df_rec)"
  shows "page_forecasting_filter conv df_fc skus dr
           = Inr (Some ((df_assign df_fc ''date'' ts)
                \<lparr>rows := filter (keep_row_spec skus [] (range_of dr))
                           (rows (df_assign df_fc ''date'' ts))\<rparr>))
         \<and> series (df_assign df_fc ''date'' ts) c = (if c = ''date'' then ts else series df_fc c)
         \<and> page_forecasting_filter conv df_fc [] None = Inr (Some (df_assign df_fc ''date'' ts))
         \<and> page_recommendations_filter df_rec skus sups
           = Inr (Some (df_rec\<lparr>rows := filter (keep_row_spec skus sups None) (rows df_rec)\<rparr>))
         \<and> page_recommendations_filter df_rec [] [] = Inr (Some df_rec)
         \<and> (\<exists>out. page_recommendations_filter df_rec [Str ''A''] [] = Inr (Some out)
               \<and> rows out = filter (\<lambda>r. cell_of r ''sku'' = Str ''A'') (rows df_rec))
         \<and> (keep_row_spec skus sups (Some (d0, d1)) r \<longleftrightarrow>
              (skus = [] \<or> cell_of r ''sku'' \<in> set skus)
              \<and> (sups = [] \<or> cell_of r ''supplier'' \<in> set sups)
              \<and> (\<exists>t. cell_of r ''date'' = Timestamp t \<and> d0 \<le> t \<and> t \<le> d1))"
proof -
  let ?d = "df_assign df_fc ''date'' ts"
  have len: "length ts = length (rows df_fc)"
    using collect_length [OF assms(4) [unfolded to_datetime_def]] by (simp add: series_def)
  have a: "page_forecasting_filter conv df_fc skus dr
           = Inr (Some (?d\<lparr>rows := filter (keep_row_spec skus [] (range_of dr)) (rows ?d)\<rparr>))"
    for skus dr
    by (rule page_forecasting_filter_spec [OF assms(1-4)])
  have b: "series ?d c = (if c = ''date'' then ts else series df_fc c)"
    by (rule series_assign [OF len])
  have a0: "page_forecasting_filter conv df_fc [] None = Inr (Some ?d)"
    unfolding a by (simp add: keep_row_spec_fun range_of_def)
  have r: "page_recommendations_filter df_rec skus sups
           = Inr (Some (df_rec\<lparr>rows := filter (keep_row_spec skus sups None) (rows df_rec)\<rparr>))"
    for skus sups
    by (rule page_recommendations_filter_spec [OF assms(5-7)])
  have r0: "page_recommendations_filter df_rec [] [] = Inr (Some df_rec)"
    unfolding r by (simp add: keep_row_spec_fun)
  have rA: "\<exists>out. page_recommendations_filter df_rec [Str ''A''] [] = Inr (Some out)
               \<and> rows out = filter (\<lambda>r. cell_of r ''sku'' = Str ''A'') (rows df_rec)"
    unfolding r by (simp add: keep_row_spec_fun)
  have k: "keep_row_spec skus sups (Some (d0, d1)) r \<longleftrightarrow>
              (skus = [] \<or> cell_of r ''sku'' \<in> set skus)
              \<and> (sups = [] \<or> cell_of r ''supplier'' \<in> set sups)
              \<and> (\<exists>t. cell_of r ''date'' = Timestamp t \<and> d0 \<le> t \<and> t \<le> d1)"
    by (cases "cell_of r ''date''") (simp_all add: keep_row_spec_def)
  from a b a0 r r0 rA k show ?thesis by blast
qed

theorem page_filters_keep_spec_rows_witness:
  "\<not> df_empty \<lparr>columns = [''sku'', ''date'', ''forecast_qty''],
        rows = [[(''sku'', Str ''A''), (''date'', Str ''2024-01-01''), (''forecast_qty'', Num 10)],
                [(''sku'', Str ''B''), (''date'', Str ''2024-01-02''), (''forecast_qty'', Num 20)]]\<rparr>
   \<and> ''sku'' \<in> set [''sku'', ''date'', ''forecast_qty'']
   \<and> ''date'' \<in> set [''sku'', ''date'', ''forecast_qty'']
   \<and> to_datetime
        (\<lambda>c. if c = Str ''2024-01-01'' then Some 19723
             else if c = Str ''2024-01-02'' then Some 19724 else None)
        (series \<lparr>columns = [''sku'', ''date'', ''forecast_qty''],
        rows = [[(''sku'', Str ''A''), (''date'', Str ''2024-01-01''), (''forecast_qty'', Num 10)],
                [(''sku'', Str ''B''), (''date'', Str ''2024-01-02''), (''forecast_qty'', Num 20)]]\<rparr>
          ''date'')
      = Inr [Timestamp 19723, Timestamp 19724]
   \<and> \<not> df_empty \<lparr>columns = [''sku'', ''supplier''],
        rows = [[(''sku'', Str ''A''), (''supplier'', Str ''S1'')],
                [(''sku'', Str ''B''), (''supplier'', Str ''S2'')]]\<rparr>
   \<and> ''sku'' \<in> set [''sku'', ''supplier'']
   \<and> ''supplier'' \<in> set [''sku'', ''supplier'']
   \<and> page_forecasting_filter
        (\<lambda>c. if c = Str ''2024-01-01'' then Some 19723
             else if c = Str ''2024-01-02'' then Some 19724 else None)
        \<lparr>columns = [''sku'', ''date'', ''forecast_qty''],
        rows = [[(''sku'', Str ''A''), (''date'', Str ''2024-01-01''), (''forecast_qty'', Num 10)],
                [(''sku'', Str ''B''), (''date'', Str ''2024-01-02''), (''forecast_qty'', Num 20)]]\<rparr>
        [] (Some [19723, 19723])
      = Inr (Some \<lparr>columns = [''sku'', ''date'', ''forecast_qty''],
        rows = [[(''sku'', Str ''A''), (''date'', Timestamp 19723), (''forecast_qty'', Num 10)]]\<rparr>)
   \<and> page_recommendations_filter
        \<lparr>columns = [''sku'', ''supplier''],
        rows = [[(''sku'', Str ''A''), (''supplier'', Str ''S1'')],
                [(''sku'', Str ''B''), (''supplier'', Str ''S2'')]]\<rparr>
        [Str ''B''] [Str ''S2'', Str ''S3'']
      = Inr (Some \<lparr>columns = [''sku'', ''supplier''],
        rows = [[(''sku'', Str ''B''), (''supplier'', Str ''S2'')]]\<rparr>)"
proof -
  let ?fc = "\<lparr>columns = [''sku'', ''date'', ''forecast_qty''],
        rows = [[(''sku'', Str ''A''), (''date'', Str ''2024-01-01''), (''forecast_qty'', Num 10)],
                [(''sku'', Str ''B''), (''date'', Str ''2024-01-02''), (''forecast_qty'', Num 20)]]\<rparr>"
  let ?rc = "\<lparr>columns = [''sku'', ''supplier''],
        rows = [[(''sku'', Str ''A''), (''supplier'', Str ''S1'')],
                [(''sku'', Str ''B''), (''supplier'', Str ''S2'')]]\<rparr>"
  let ?conv = "\<lambda>c. if c = Str ''2024-01-01'' then Some (19723 :: int)
             else if c = Str ''2024-01-02'' then Some 19724 else None"
  let ?ts = "[Timestamp 19723, Timestamp 19724]"
  have h1: "\<not> df_empty ?fc" by (simp add: df_empty_def)
  have h2: "''sku'' \<in> set (columns ?fc)" by simp
  have h3: "''date'' \<in> set (columns ?fc)" by simp
  have h4: "to_datetime ?conv (series ?fc ''date'') = Inr ?ts"
    by (simp add: to_datetime_def series_def cell_of_def to_datetime_cell_def)
  have h5: "\<not> df_empty ?rc" by (simp add: df_empty_def)
  have h6: "''sku'' \<in> set (columns ?rc)" by simp
  have h7: "''supplier'' \<in> set (columns ?rc)" by simp
  note t = page_filters_keep_spec_rows [OF h1 h2 h3 h4 h5 h6 h7]
  have c1: "page_forecasting_filter ?conv ?fc [] (Some [19723, 19723])
      = Inr (Some ((df_assign ?fc ''date'' ?ts)
                \<lparr>rows := filter (keep_row_spec [] [] (range_of (Some [19723, 19723])))
                           (rows (df_assign ?fc ''date'' ?ts))\<rparr>))"
    using t [of "[]" "Some [19723, 19723]"] by blast
  have c2: "page_recommendations_filter ?rc [Str ''B''] [Str ''S2'', Str ''S3'']
      = Inr (Some (?rc\<lparr>rows := filter (keep_row_spec [Str ''B''] [Str ''S2'', Str ''S3''] None)
            (rows ?rc)\<rparr>))"
    using t [of "[Str ''B'']" _ _ "[Str ''S2'', Str ''S3'']"] by blast
  have e1: "(df_assign ?fc ''date'' ?ts)
                \<lparr>rows := filter (keep_row_spec [] [] (range_of (Some [19723, 19723])))
                           (rows (df_assign ?fc ''date'' ?ts))\<rparr>
      = \<lparr>columns = [''sku'', ''date'', ''forecast_qty''],
        rows = [[(''sku'', Str ''A''), (''date'', Timestamp 19723), (''forecast_qty'', Num 10)]]\<rparr>"
    by (simp add: df_assign_def keep_row_spec_def range_of_def cell_of_def)
  have e2: "?rc\<lparr>rows := filter (keep_row_spec [Str ''B''] [Str ''S2'', Str ''S3''] None)
            (rows ?rc)\<rparr>
      = \<lparr>columns = [''sku'', ''supplier''],
        rows = [[(''sku'', Str ''B''), (''supplier'', Str ''S2'')]]\<rparr>"
    by (simp add: keep_row_spec_def cell_of_def)
  from h1 h2 h3 h4 h5 h6 h7 c1 c2 e1 e2 show ?thesis by simp
qed

text \<open>
  C5. On a recommendations table with an urgency column and an sku column that can be
  ordered, the rows under \<^verbatim>\<open>Reorder Suggestions\<close> are the rows of the table with their
  labels, ordered by the label text first and by sku second, both ascending; in the order
  of the texts the high label comes before the medium label, and that one before the low
  label.
\<close>

theorem reorder_suggestions_sorted_by_label_then_sku:
  assumes "''urgency'' \<in> set (columns df_rec)" and "''sku'' \<in> set (columns df_rec)"
    and "comparable (series df_rec ''sku'')"
  shows "(\<exists>out. reorder_suggestions repr df_rec = Inr out
           \<and> mset (map (\<lambda>r. (cell_of r ''Urgency'', cell_of r ''sku'')) (rows out))
               = mset (map (\<lambda>r. (Str (urgency_label repr (cell_of r ''urgency'')), cell_of r ''sku''))
                       (rows df_rec))
           \<and> sorted_wrt (\<lambda>r1 r2.
                 str_of (cell_of r1 ''Urgency'') < str_of (cell_of r2 ''Urgency'')
                 \<or> (str_of (cell_of r1 ''Urgency'') = str_of (cell_of r2 ''Urgency'')
                     \<and> cell_key (cell_of r1 ''sku'') \<le> cell_key (cell_of r2 ''sku'')))
               (rows out))
         \<and> label_high < label_medium \<and> label_medium < label_low
         \<and> (cell_key (Str s) \<le> cell_key (Str t) \<longleftrightarrow> s \<le> t)
         \<and> cell_key (Str s) < cell_key NaN"
  using reorder_suggestions_sorted [OF assms, of repr] label_order cell_key_str [of s t]
    cell_key_null_last [of "Str s"]
  by (simp add: is_null_def)

theorem reorder_suggestions_sorted_by_label_then_sku_witness:
  "''urgency'' \<in> set [''sku'', ''urgency'']
   \<and> ''sku'' \<in> set [''sku'', ''urgency'']
   \<and> comparable (series
        \<lparr>columns = [''sku'', ''urgency''],
         rows = [[(''sku'', Str ''A''), (''urgency'', Str ''low'')],
                 [(''sku'', Str ''B''), (''urgency'', Str ''HIGH'')],
                 [(''sku'', Str ''C''), (''urgency'', Str ''medium'')],
                 [(''sku'', Str ''A2''), (''urgency'', Str ''high'')]]\<rparr> ''sku'')
   \<and> (\<exists>out. reorder_suggestions (\<lambda>c. ''0'')
        \<lparr>columns = [''sku'', ''urgency''],
         rows = [[(''sku'', Str ''A''), (''urgency'', Str ''low'')],
                 [(''sku'', Str ''B''), (''urgency'', Str ''HIGH'')],
                 [(''sku'', Str ''C''), (''urgency'', Str ''medium'')],
                 [(''sku'', Str ''A2''), (''urgency'', Str ''high'')]]\<rparr> = Inr out
        \<and> sorted_wrt (\<lambda>r1 r2.
                 str_of (cell_of r1 ''Urgency'') < str_of (cell_of r2 ''Urgency'')
                 \<or> (str_of (cell_of r1 ''Urgency'') = str_of (cell_of r2 ''Urgency'')
                     \<and> cell_key (cell_of r1 ''sku'') \<le> cell_key (cell_of r2 ''sku'')))
               (rows out))
   \<and> reorder_suggestions (\<lambda>c. ''0'')
        \<lparr>columns = [''sku'', ''urgency''],
         rows = [[(''sku'', Str ''A''), (''urgency'', Str ''low'')],
                 [(''sku'', Str ''B''), (''urgency'', Str ''HIGH'')],
                 [(''sku'', Str ''C''), (''urgency'', Str ''medium'')],
                 [(''sku'', Str ''A2''), (''urgency'', Str ''high'')]]\<rparr>
      = Inr \<lparr>columns = [''sku'', ''Urgency''],
         rows = [[(''sku'', Str ''A2''), (''Urgency'', Str label_high)],
                 [(''sku'', Str ''B''), (''Urgency'', Str label_high)],
                 [(''sku'', Str ''C''), (''Urgency'', Str label_medium)],
                 [(''sku'', Str ''A''), (''Urgency'', Str label_low)]]\<rparr>"
proof -
  let ?t = "\<lparr>columns = [''sku'', ''urgency''],
         rows = [[(''sku'', Str ''A''), (''urgency'', Str ''low'')],
                 [(''sku'', Str ''B''), (''urgency'', Str ''HIGH'')],
                 [(''sku'', Str ''C''), (''urgency'', Str ''medium'')],
                 [(''sku'', Str ''A2''), (''urgency'', Str ''high'')]]\<rparr>"
  have h1: "''urgency'' \<in> set (columns ?t)" by simp
  have h2: "''sku'' \<in> set (columns ?t)" by simp
  have h3: "comparable (series ?t ''sku'')"
    by (simp add: comparable_def series_def cell_of_def dropna_def is_null_def is_str_def)
  have c: "\<exists>out. reorder_suggestions (\<lambda>c. ''0'') ?t = Inr out
        \<and> sorted_wrt (\<lambda>r1 r2.
                 str_of (cell_of r1 ''Urgency'') < str_of (cell_of r2 ''Urgency'')
                 \<or> (str_of (cell_of r1 ''Urgency'') = str_of (cell_of r2 ''Urgency'')
                     \<and> cell_key (cell_of r1 ''sku'') \<le> cell_key (cell_of r2 ''sku'')))
               (rows out)"
    using reorder_suggestions_sorted_by_label_then_sku [OF h1 h2 h3, of "\<lambda>c. ''0''"] by blast
  have e: "reorder_suggestions (\<lambda>c. ''0'') ?t
      = Inr \<lparr>columns = [''sku'', ''Urgency''],
         rows = [[(''sku'', Str ''A2''), (''Urgency'', Str label_high)],
                 [(''sku'', Str ''B''), (''Urgency'', Str label_high)],
                 [(''sku'', Str ''C''), (''Urgency'', Str label_medium)],
                 [(''sku'', Str ''A''), (''Urgency'', Str label_low)]]\<rparr>"
    by (simp add: reorder_suggestions_def with_urgency_def df_assign_def series_def cell_of_def
      urgency_label_def py_lower_def py_str_def lower_char_def columns_to_show_all_def
      df_select_def sort_values2_def comparable_def dropna_def is_null_def is_str_def
      cell_key_def less_eq_prod_def less_prod_def label_high_def label_medium_def label_low_def)
  from h1 h2 h3 c e show ?thesis by simp
qed




end
